theory Spec2Isabelle
  imports Complex_Main "HOL-Library.Word" "HOL-Library.Log_Nat" "HOL-Library.Monad_Syntax"
    "HOL-Library.Char_ord"
begin

unbundle bit_operations_syntax

section \<open>Platform arithmetic\<close>

text \<open>
  \<^verbatim>\<open>main.cpp\<close> computes with \<^verbatim>\<open>double\<close>, \<^verbatim>\<open>int\<close>, \<^verbatim>\<open>char\<close> and
  \<^verbatim>\<open>unsigned char\<close>. The language leaves their representation to the platform; the
  embedding fixes the usual one: \<^verbatim>\<open>int\<close> is a 32-bit two's complement integer,
  \<^verbatim>\<open>unsigned char\<close> is an 8-bit word, and \<^verbatim>\<open>double\<close> is IEEE 754 binary64 with
  the default rounding (to nearest, ties to even).
\<close>

subsection \<open>int\<close>

definition INT_MIN :: int where
  "INT_MIN = - (2 ^ 31)"

definition INT_MAX :: int where
  "INT_MAX = 2 ^ 31 - 1"

subsection \<open>double\<close>

text \<open>
  \<open>Finite s m e\<close> is the number \<open>(-1)\<^sup>s \<sqdot> m \<sqdot> 2\<^sup>e\<close>. The binary64 values are the
  canonical triples (\<open>valid_double\<close>): a 53-bit significand \<open>m\<close> with its top bit set and
  \<open>-1074 \<le> e \<le> 971\<close> (normal numbers), or any \<open>m < 2\<^sup>5\<^sup>2\<close> at \<open>e = -1074\<close> (zeros and
  subnormal numbers). Each finite binary64 value, with its sign, is exactly one canonical
  triple. All NaNs are one value.
\<close>

datatype double = Finite bool nat int | Infinity bool | NaN

fun valid_double :: "double \<Rightarrow> bool" where
  "valid_double (Finite s m e) =
     (m < 2 ^ 53 \<and> - 1074 \<le> e \<and> e \<le> 971 \<and> (2 ^ 52 \<le> m \<or> e = - 1074))"
| "valid_double (Infinity s) = True"
| "valid_double NaN = True"

fun is_finite :: "double \<Rightarrow> bool" where
  "is_finite (Finite s m e) = True"
| "is_finite (Infinity s) = False"
| "is_finite NaN = False"

text \<open>The real number a finite double stands for (0 for the values that are no number).\<close>

fun valof :: "double \<Rightarrow> real" where
  "valof (Finite s m e) = (if s then - 1 else 1) * real m * 2 powi e"
| "valof (Infinity s) = 0"
| "valof NaN = 0"

text \<open>
  \<open>round_shift M d\<close> is \<open>M / 2\<^sup>d\<close> rounded to the nearest natural number, a tie going to
  the even neighbour.
\<close>

definition round_shift :: "nat \<Rightarrow> nat \<Rightarrow> nat" where
  "round_shift M d =
     (let q = M div 2 ^ d; r = M mod 2 ^ d; h = 2 ^ (d - 1)
      in if d = 0 then M
         else if h < r \<or> (r = h \<and> odd q) then q + 1 else q)"

text \<open>
  \<open>dround s M E\<close> rounds the exact number \<open>(-1)\<^sup>s \<sqdot> M \<sqdot> 2\<^sup>E\<close> to binary64: the exponent of
  the result is the one that leaves 53 significant bits, but not below the subnormal
  exponent \<open>-1074\<close>; the significand is rounded to nearest-even at that exponent; a
  significand that rounds up to \<open>2\<^sup>5\<^sup>3\<close> moves to the next binade; a result beyond the
  largest finite double is an infinity; a result that rounds to zero keeps the sign.
\<close>

definition dround :: "bool \<Rightarrow> nat \<Rightarrow> int \<Rightarrow> double" where
  "dround s M E =
     (if M = 0 then Finite s 0 (- 1074)
      else
        let e = max (E + int (floorlog 2 M) - 53) (- 1074);
            m = (if e \<le> E then M * 2 ^ nat (E - e) else round_shift M (nat (e - E)));
            m' = (if m = 2 ^ 53 then 2 ^ 52 else m);
            e' = (if m = 2 ^ 53 then e + 1 else e)
        in if 971 < e' then Infinity s else Finite s m' e')"

text \<open>
  Addition. The exact sum of two finite doubles is an integer multiple of \<open>2\<close> to the
  smaller exponent. An exact zero sum is \<open>+0\<close>, except \<open>(-0) + (-0) = -0\<close>.
\<close>

definition with_sign :: "bool \<Rightarrow> nat \<Rightarrow> int" where
  "with_sign s m = (if s then - int m else int m)"

fun dadd :: "double \<Rightarrow> double \<Rightarrow> double" where
  "dadd NaN y = NaN"
| "dadd x NaN = NaN"
| "dadd (Infinity s) (Infinity t) = (if s = t then Infinity s else NaN)"
| "dadd (Infinity s) (Finite t m e) = Infinity s"
| "dadd (Finite s m e) (Infinity t) = Infinity t"
| "dadd (Finite s1 m1 e1) (Finite s2 m2 e2) =
     (let e = min e1 e2;
          S = with_sign s1 m1 * 2 ^ nat (e1 - e) + with_sign s2 m2 * 2 ^ nat (e2 - e)
      in if S = 0 then Finite (s1 \<and> s2) 0 (- 1074)
         else dround (S < 0) (nat \<bar>S\<bar>) e)"

text \<open>Multiplication. The sign of the product is the exclusive or of the signs.\<close>

fun dmul :: "double \<Rightarrow> double \<Rightarrow> double" where
  "dmul NaN y = NaN"
| "dmul x NaN = NaN"
| "dmul (Infinity s) (Infinity t) = Infinity (s \<noteq> t)"
| "dmul (Infinity s) (Finite t m e) = (if m = 0 then NaN else Infinity (s \<noteq> t))"
| "dmul (Finite s m e) (Infinity t) = (if m = 0 then NaN else Infinity (s \<noteq> t))"
| "dmul (Finite s1 m1 e1) (Finite s2 m2 e2) = dround (s1 \<noteq> s2) (m1 * m2) (e1 + e2)"

text \<open>
  The conversion \<^verbatim>\<open>int\<close> to \<^verbatim>\<open>double\<close>. Every 32-bit integer is a binary64 value,
  so the rounding changes nothing (\<open>valof_int_to_double\<close> below).
\<close>

definition int_to_double :: "int \<Rightarrow> double" where
  "int_to_double i = dround (i < 0) (nat \<bar>i\<bar>) 0"

text \<open>
  The conversion \<^verbatim>\<open>double\<close> to \<^verbatim>\<open>int\<close> discards the fractional part. When the
  truncated value is no \<^verbatim>\<open>int\<close> (and for infinities and NaN) the behaviour of the
  program is undefined: \<open>None\<close>.
\<close>

definition trunc_magnitude :: "nat \<Rightarrow> int \<Rightarrow> nat" where
  "trunc_magnitude m e = (if 0 \<le> e then m * 2 ^ nat e else m div 2 ^ nat (- e))"

fun double_to_int :: "double \<Rightarrow> int option" where
  "double_to_int (Finite s m e) =
     (let t = with_sign s (trunc_magnitude m e)
      in if INT_MIN \<le> t \<and> t \<le> INT_MAX then Some t else None)"
| "double_to_int (Infinity s) = None"
| "double_to_int NaN = None"

text \<open>The floating literals of the program: \<^verbatim>\<open>0.0\<close>, \<^verbatim>\<open>1.0\<close>, ..., \<^verbatim>\<open>9.0\<close>.\<close>

definition double_literal :: "nat \<Rightarrow> double" where
  "double_literal n = dround False n 0"

subsection \<open>Characters\<close>

type_synonym unsigned_char = "8 word"

text \<open>
  \<^verbatim>\<open>std::isdigit\<close> on the value of an \<^verbatim>\<open>unsigned char\<close>, in the "C" locale (the
  program never changes the locale).
\<close>

definition isdigit :: "int \<Rightarrow> bool" where
  "isdigit c = (48 \<le> c \<and> c \<le> 57)"

section \<open>Control\<close>

text \<open>
  A call returns, throws, or has undefined behaviour. \<open>Thrown\<close> carries the exception
  and the objects the call works on as they are when the exception leaves it. The only
  exception the program throws is a \<^verbatim>\<open>std::runtime_error\<close>; running out of memory is
  outside the model.
\<close>

datatype exception = runtime_error string

fun what :: "exception \<Rightarrow> string" where
  "what (runtime_error msg) = msg"

datatype 'a outcome = Returned 'a | Thrown exception 'a | Undefined

text \<open>\<^verbatim>\<open>std::accumulate(first, last, init, op)\<close>: \<^verbatim>\<open>init = op(init, *it)\<close> from left to right.\<close>

fun accumulate :: "'b list \<Rightarrow> 'a \<Rightarrow> ('a \<Rightarrow> 'b \<Rightarrow> 'a) \<Rightarrow> 'a" where
  "accumulate [] init op = init"
| "accumulate (x # xs) init op = accumulate xs (op init x) op"

section \<open>Elements\<close>

datatype SingleElement = SingleElement double
datatype ArrayElement = ArrayElement "double list"
datatype StringElement = StringElement string

fun SingleElement_GetValue :: "SingleElement \<Rightarrow> double" where
  "SingleElement_GetValue (SingleElement v) = v"

fun SingleElement_SetValue :: "SingleElement \<Rightarrow> double \<Rightarrow> SingleElement" where
  "SingleElement_SetValue (SingleElement v) v' = SingleElement v'"

fun ArrayElement_GetValue :: "ArrayElement \<Rightarrow> double list" where
  "ArrayElement_GetValue (ArrayElement v) = v"

fun ArrayElement_SetValue :: "ArrayElement \<Rightarrow> double list \<Rightarrow> ArrayElement" where
  "ArrayElement_SetValue (ArrayElement v) v' = ArrayElement v'"

fun StringElement_GetValue :: "StringElement \<Rightarrow> string" where
  "StringElement_GetValue (StringElement v) = v"

fun StringElement_SetValue :: "StringElement \<Rightarrow> string \<Rightarrow> StringElement" where
  "StringElement_SetValue (StringElement v) v' = StringElement v'"

text \<open>An object seen through \<^verbatim>\<open>AbstractElement&\<close>: one of the three classes.\<close>

datatype AbstractElement =
  Single SingleElement | Array ArrayElement | Text StringElement

section \<open>Visitors\<close>

text \<open>
  \<^verbatim>\<open>AbstractVisitor\<close> is the table of the three virtual handlers of a visitor class
  with state \<open>'v\<close>. A handler takes its element by reference to \<^verbatim>\<open>const\<close>: it reads
  the element and gives back the visitor only.
\<close>

record 'v AbstractVisitor =
  ProcessSingleElement :: "'v \<Rightarrow> SingleElement \<Rightarrow> 'v outcome"
  ProcessArrayElement :: "'v \<Rightarrow> ArrayElement \<Rightarrow> 'v outcome"
  ProcessStringElement :: "'v \<Rightarrow> StringElement \<Rightarrow> 'v outcome"

subsection \<open>SumVisitor\<close>

text \<open>
  A visitor object is its one data member, \<^verbatim>\<open>value\<close> (\<open>val\<close> below). Lines 180 to 244:
  \<^item> \<^verbatim>\<open>ProcessSingleElement\<close>: \<^verbatim>\<open>int v = element.GetValue(); value += v;\<close>
    The double is converted to \<^verbatim>\<open>int\<close>, and the \<^verbatim>\<open>int\<close> back to \<^verbatim>\<open>double\<close>
    for the addition.
  \<^item> \<^verbatim>\<open>ProcessArrayElement\<close>:
    \<^verbatim>\<open>double sum = std::accumulate(v.cbegin(), v.cend(), 0.0); value += sum;\<close>
  \<^item> \<^verbatim>\<open>ProcessStringElement\<close>:
    \<^verbatim>\<open>double sum = std::accumulate(v.begin(), v.end(), 0.0, lambda); value += sum;\<close>
    where \<^verbatim>\<open>lambda(double sum, unsigned char ch)\<close> is
    \<^verbatim>\<open>if(std::isdigit(ch)) { sum += static_cast<double>(ch - '0'); return sum; } return sum;\<close>
    Each \<^verbatim>\<open>char\<close> of the string is converted to \<^verbatim>\<open>unsigned char\<close> for the call.
\<close>

datatype SumVisitor = SumVisitor double

definition SumVisitor_new :: SumVisitor where
  "SumVisitor_new = SumVisitor (double_literal 0)"

fun SumVisitor_ProcessSingleElement :: "SumVisitor \<Rightarrow> SingleElement \<Rightarrow> SumVisitor outcome" where
  "SumVisitor_ProcessSingleElement (SumVisitor val) element =
     (case double_to_int (SingleElement_GetValue element) of
        None \<Rightarrow> Undefined
      | Some v \<Rightarrow> Returned (SumVisitor (dadd val (int_to_double v))))"

fun SumVisitor_ProcessArrayElement :: "SumVisitor \<Rightarrow> ArrayElement \<Rightarrow> SumVisitor outcome" where
  "SumVisitor_ProcessArrayElement (SumVisitor val) element =
     (let v = ArrayElement_GetValue element;
          sum_acc = accumulate v (double_literal 0) dadd
      in Returned (SumVisitor (dadd val sum_acc)))"

definition SumVisitor_lambda :: "double \<Rightarrow> unsigned_char \<Rightarrow> double" where
  "SumVisitor_lambda sum_acc ch =
     (if isdigit (uint ch) then dadd sum_acc (int_to_double (uint ch - 48)) else sum_acc)"

fun SumVisitor_ProcessStringElement :: "SumVisitor \<Rightarrow> StringElement \<Rightarrow> SumVisitor outcome" where
  "SumVisitor_ProcessStringElement (SumVisitor val) element =
     (let v = StringElement_GetValue element;
          sum_acc = accumulate v (double_literal 0) (\<lambda>sum_acc c. SumVisitor_lambda sum_acc (of_char c))
      in Returned (SumVisitor (dadd val sum_acc)))"

fun SumVisitor_GetValue :: "SumVisitor \<Rightarrow> double" where
  "SumVisitor_GetValue (SumVisitor val) = val"

fun SumVisitor_Reset :: "SumVisitor \<Rightarrow> SumVisitor" where
  "SumVisitor_Reset (SumVisitor val) = SumVisitor (double_literal 0)"

definition SumVisitor_vtable :: "SumVisitor AbstractVisitor" where
  "SumVisitor_vtable =
     \<lparr>ProcessSingleElement = SumVisitor_ProcessSingleElement,
      ProcessArrayElement = SumVisitor_ProcessArrayElement,
      ProcessStringElement = SumVisitor_ProcessStringElement\<rparr>"

subsection \<open>MultiplyVisitor\<close>

text \<open>
  Lines 247 to 315, the same with \<^verbatim>\<open>value *= v\<close>, with
  \<^verbatim>\<open>std::accumulate(v.cbegin(), v.cend(), 1.0, lambda)\<close> where the lambda returns
  \<^verbatim>\<open>product * value\<close>, and with \<^verbatim>\<open>product *= static_cast<double>(ch - '0')\<close>.
\<close>

datatype MultiplyVisitor = MultiplyVisitor double

definition MultiplyVisitor_new :: MultiplyVisitor where
  "MultiplyVisitor_new = MultiplyVisitor (double_literal 1)"

fun MultiplyVisitor_ProcessSingleElement ::
  "MultiplyVisitor \<Rightarrow> SingleElement \<Rightarrow> MultiplyVisitor outcome" where
  "MultiplyVisitor_ProcessSingleElement (MultiplyVisitor val) element =
     (case double_to_int (SingleElement_GetValue element) of
        None \<Rightarrow> Undefined
      | Some v \<Rightarrow> Returned (MultiplyVisitor (dmul val (int_to_double v))))"

fun MultiplyVisitor_ProcessArrayElement ::
  "MultiplyVisitor \<Rightarrow> ArrayElement \<Rightarrow> MultiplyVisitor outcome" where
  "MultiplyVisitor_ProcessArrayElement (MultiplyVisitor val) element =
     (let v = ArrayElement_GetValue element;
          prod_acc = accumulate v (double_literal 1) (\<lambda>prod_acc x. dmul prod_acc x)
      in Returned (MultiplyVisitor (dmul val prod_acc)))"

definition MultiplyVisitor_lambda_multiply :: "double \<Rightarrow> unsigned_char \<Rightarrow> double" where
  "MultiplyVisitor_lambda_multiply prod_acc ch =
     (if isdigit (uint ch) then dmul prod_acc (int_to_double (uint ch - 48)) else prod_acc)"

fun MultiplyVisitor_ProcessStringElement ::
  "MultiplyVisitor \<Rightarrow> StringElement \<Rightarrow> MultiplyVisitor outcome" where
  "MultiplyVisitor_ProcessStringElement (MultiplyVisitor val) element =
     (let v = StringElement_GetValue element;
          prod_acc = accumulate v (double_literal 1)
                       (\<lambda>prod_acc c. MultiplyVisitor_lambda_multiply prod_acc (of_char c))
      in Returned (MultiplyVisitor (dmul val prod_acc)))"

fun MultiplyVisitor_GetValue :: "MultiplyVisitor \<Rightarrow> double" where
  "MultiplyVisitor_GetValue (MultiplyVisitor val) = val"

fun MultiplyVisitor_Reset :: "MultiplyVisitor \<Rightarrow> MultiplyVisitor" where
  "MultiplyVisitor_Reset (MultiplyVisitor val) = MultiplyVisitor (double_literal 1)"

definition MultiplyVisitor_vtable :: "MultiplyVisitor AbstractVisitor" where
  "MultiplyVisitor_vtable =
     \<lparr>ProcessSingleElement = MultiplyVisitor_ProcessSingleElement,
      ProcessArrayElement = MultiplyVisitor_ProcessArrayElement,
      ProcessStringElement = MultiplyVisitor_ProcessStringElement\<rparr>"

subsection \<open>XORVisitor\<close>

text \<open>
  Lines 318 to 370. The handlers for \<^verbatim>\<open>SingleElement\<close> and \<^verbatim>\<open>ArrayElement\<close> are one
  \<^verbatim>\<open>throw std::runtime_error("...")\<close> each. The handler for \<^verbatim>\<open>StringElement\<close> is
  \<^verbatim>\<open>unsigned char checksum = std::accumulate(v.begin(), v.end(), 0, lambda_xor); value ^= checksum;\<close>
\<close>

datatype XORVisitor = XORVisitor unsigned_char

definition XORVisitor_new :: XORVisitor where
  "XORVisitor_new = XORVisitor 0"

fun XORVisitor_ProcessSingleElement :: "XORVisitor \<Rightarrow> SingleElement \<Rightarrow> XORVisitor outcome" where
  "XORVisitor_ProcessSingleElement (XORVisitor val) element =
     Thrown (runtime_error ''Error: Cannot apply XOR operation to SingleElement type'')
       (XORVisitor val)"

fun XORVisitor_ProcessArrayElement :: "XORVisitor \<Rightarrow> ArrayElement \<Rightarrow> XORVisitor outcome" where
  "XORVisitor_ProcessArrayElement (XORVisitor val) element =
     Thrown (runtime_error ''Error: Cannot apply XOR operation to ArrayElement type'')
       (XORVisitor val)"

text \<open>
  \<^verbatim>\<open>lambda_xor\<close> takes two \<^verbatim>\<open>unsigned char\<close> and returns the \<^verbatim>\<open>int\<close> that
  \<^verbatim>\<open>checksum ^ ch\<close> is after the integral promotions. \<^verbatim>\<open>std::accumulate\<close> is called
  with the \<^verbatim>\<open>int\<close> 0, so its accumulator is an \<^verbatim>\<open>int\<close>, converted to
  \<^verbatim>\<open>unsigned char\<close> (modulo 256) at each call and at the end.
\<close>

definition XORVisitor_lambda_xor :: "unsigned_char \<Rightarrow> unsigned_char \<Rightarrow> int" where
  "XORVisitor_lambda_xor checksum ch = uint checksum XOR uint ch"

fun XORVisitor_ProcessStringElement :: "XORVisitor \<Rightarrow> StringElement \<Rightarrow> XORVisitor outcome" where
  "XORVisitor_ProcessStringElement (XORVisitor val) element =
     (let v = StringElement_GetValue element;
          checksum = (word_of_int
            (accumulate v 0 (\<lambda>acc c. XORVisitor_lambda_xor (word_of_int acc) (of_char c)))
              :: unsigned_char)
      in Returned (XORVisitor (val XOR checksum)))"

fun XORVisitor_GetValue :: "XORVisitor \<Rightarrow> unsigned_char" where
  "XORVisitor_GetValue (XORVisitor val) = val"

fun XORVisitor_Reset :: "XORVisitor \<Rightarrow> XORVisitor" where
  "XORVisitor_Reset (XORVisitor val) = XORVisitor 0"

definition XORVisitor_vtable :: "XORVisitor AbstractVisitor" where
  "XORVisitor_vtable =
     \<lparr>ProcessSingleElement = XORVisitor_ProcessSingleElement,
      ProcessArrayElement = XORVisitor_ProcessArrayElement,
      ProcessStringElement = XORVisitor_ProcessStringElement\<rparr>"

section \<open>Dispatch\<close>

text \<open>
  \<^verbatim>\<open>Accept\<close> calls the handler of the visitor for the element's own class, and
  nothing else. The result holds the element and the visitor after the call.
\<close>

fun with_element :: "'e \<Rightarrow> 'v outcome \<Rightarrow> ('e \<times> 'v) outcome" where
  "with_element el (Returned v) = Returned (el, v)"
| "with_element el (Thrown ex v) = Thrown ex (el, v)"
| "with_element el Undefined = Undefined"

definition SingleElement_Accept ::
  "SingleElement \<Rightarrow> 'v AbstractVisitor \<Rightarrow> 'v \<Rightarrow> (SingleElement \<times> 'v) outcome" where
  "SingleElement_Accept this vt visitor = with_element this (ProcessSingleElement vt visitor this)"

definition ArrayElement_Accept ::
  "ArrayElement \<Rightarrow> 'v AbstractVisitor \<Rightarrow> 'v \<Rightarrow> (ArrayElement \<times> 'v) outcome" where
  "ArrayElement_Accept this vt visitor = with_element this (ProcessArrayElement vt visitor this)"

definition StringElement_Accept ::
  "StringElement \<Rightarrow> 'v AbstractVisitor \<Rightarrow> 'v \<Rightarrow> (StringElement \<times> 'v) outcome" where
  "StringElement_Accept this vt visitor = with_element this (ProcessStringElement vt visitor this)"

text \<open>The virtual call \<^verbatim>\<open>element.Accept(visitor)\<close> through \<^verbatim>\<open>AbstractElement&\<close>.\<close>

fun upcast :: "('e \<Rightarrow> AbstractElement) \<Rightarrow> ('e \<times> 'v) outcome \<Rightarrow> (AbstractElement \<times> 'v) outcome" where
  "upcast C (Returned (el, v)) = Returned (C el, v)"
| "upcast C (Thrown ex (el, v)) = Thrown ex (C el, v)"
| "upcast C Undefined = Undefined"

fun Accept ::
  "AbstractElement \<Rightarrow> 'v AbstractVisitor \<Rightarrow> 'v \<Rightarrow> (AbstractElement \<times> 'v) outcome" where
  "Accept (Single el) vt visitor = upcast Single (SingleElement_Accept el vt visitor)"
| "Accept (Array el) vt visitor = upcast Array (ArrayElement_Accept el vt visitor)"
| "Accept (Text el) vt visitor = upcast Text (StringElement_Accept el vt visitor)"

text \<open>
  \<^verbatim>\<open>std::for_each\<close> with a function object that holds a reference to the visitor:
  the elements in order, until a call throws.
\<close>

fun for_each ::
  "'e list \<Rightarrow> ('e \<Rightarrow> 'v \<Rightarrow> ('e \<times> 'v) outcome) \<Rightarrow> 'v \<Rightarrow> ('e list \<times> 'v) outcome" where
  "for_each [] f visitor = Returned ([], visitor)"
| "for_each (el # els) f visitor =
     (case f el visitor of
        Undefined \<Rightarrow> Undefined
      | Thrown ex (el', visitor') \<Rightarrow> Thrown ex (el' # els, visitor')
      | Returned (el', visitor') \<Rightarrow>
          (case for_each els f visitor' of
             Undefined \<Rightarrow> Undefined
           | Thrown ex (els', visitor'') \<Rightarrow> Thrown ex (el' # els', visitor'')
           | Returned (els', visitor'') \<Rightarrow> Returned (el' # els', visitor'')))"

text \<open>\<^verbatim>\<open>ForEachAdapter::operator()\<close>, and the lambdas of \<^verbatim>\<open>main\<close> that do the same.\<close>

definition ForEachAdapter_call ::
  "'v AbstractVisitor \<Rightarrow> AbstractElement \<Rightarrow> 'v \<Rightarrow> (AbstractElement \<times> 'v) outcome" where
  "ForEachAdapter_call visitor_type element visitor = Accept element visitor_type visitor"

section \<open>The driver\<close>

text \<open>
  What \<^verbatim>\<open>main\<close> writes to \<^verbatim>\<open>std::cout\<close>, as the sequence of the values inserted
  (the formatting of a \<^verbatim>\<open>double\<close> is left to the stream).
\<close>

datatype token = Str string | Dbl double | Num int | Endl

record main_state =
  single_element_list :: "AbstractElement list"
  array_element_list :: "AbstractElement list"
  string_element :: StringElement
  sum_visitor :: SumVisitor
  multiply_visitor :: MultiplyVisitor
  xor_visitor :: XORVisitor
  cout :: "token list"

definition initial_values :: "double list" where
  "initial_values =
     [double_literal 1, double_literal 2, double_literal 3, double_literal 4, double_literal 5,
      double_literal 6, double_literal 7, double_literal 8, double_literal 9]"

definition main_init :: main_state where
  "main_init =
     \<lparr>single_element_list = map (\<lambda>v. Single (SingleElement v)) initial_values,
      array_element_list =
        [Array (ArrayElement [double_literal 1]),
         Array (ArrayElement [double_literal 2, double_literal 3]),
         Array (ArrayElement [double_literal 4, double_literal 5, double_literal 6]),
         Array (ArrayElement [double_literal 7, double_literal 8, double_literal 9])],
      string_element = StringElement (''Hello World 123456789'' @ [CHR 0x02]),
      sum_visitor = SumVisitor_new,
      multiply_visitor = MultiplyVisitor_new,
      xor_visitor = XORVisitor_new,
      cout = []\<rparr>"

text \<open>
  \<^verbatim>\<open>try { body } catch(const std::runtime_error &e) { std::cout << e.what() << std::endl; }\<close>:
  \<open>store\<close> writes the objects the body worked on back to the variables of \<^verbatim>\<open>main\<close>.
  The handler is entered once, when the exception leaves the body. In \<^verbatim>\<open>main\<close> the
  body of such a block is one whole \<^verbatim>\<open>std::for_each\<close> call (lines 435 to 540), or one
  \<^verbatim>\<open>string_element.Accept(...)\<close> (lines 554 to 579).
\<close>

fun try_catch ::
  "'a outcome \<Rightarrow> ('a \<Rightarrow> main_state \<Rightarrow> main_state) \<Rightarrow> main_state \<Rightarrow> main_state option" where
  "try_catch (Returned x) store st = Some (store x st)"
| "try_catch (Thrown e x) store st =
     Some ((store x st)\<lparr>cout := cout (store x st) @ [Str (what e), Endl]\<rparr>)"
| "try_catch Undefined store st = None"

subsection \<open>The SingleElement list\<close>

definition main_single_sum :: "main_state \<Rightarrow> main_state option" where
  "main_single_sum st =
     try_catch
       (for_each (single_element_list st) (ForEachAdapter_call SumVisitor_vtable) (sum_visitor st))
       (\<lambda>(els, v) st. st\<lparr>single_element_list := els, sum_visitor := v\<rparr>) st"

definition main_single_multiply :: "main_state \<Rightarrow> main_state option" where
  "main_single_multiply st =
     try_catch
       (for_each (single_element_list st) (\<lambda>element. Accept element MultiplyVisitor_vtable)
          (multiply_visitor st))
       (\<lambda>(els, v) st. st\<lparr>single_element_list := els, multiply_visitor := v\<rparr>) st"

definition main_single_xor :: "main_state \<Rightarrow> main_state option" where
  "main_single_xor st =
     try_catch
       (for_each (single_element_list st) (\<lambda>element. Accept element XORVisitor_vtable)
          (xor_visitor st))
       (\<lambda>(els, v) st. st\<lparr>single_element_list := els, xor_visitor := v\<rparr>) st"

subsection \<open>The ArrayElement list\<close>

definition main_array_sum :: "main_state \<Rightarrow> main_state option" where
  "main_array_sum st =
     try_catch
       (for_each (array_element_list st) (\<lambda>element. Accept element SumVisitor_vtable)
          (sum_visitor st))
       (\<lambda>(els, v) st. st\<lparr>array_element_list := els, sum_visitor := v\<rparr>) st"

definition main_array_multiply :: "main_state \<Rightarrow> main_state option" where
  "main_array_multiply st =
     try_catch
       (for_each (array_element_list st) (\<lambda>element. Accept element MultiplyVisitor_vtable)
          (multiply_visitor st))
       (\<lambda>(els, v) st. st\<lparr>array_element_list := els, multiply_visitor := v\<rparr>) st"

definition main_array_xor :: "main_state \<Rightarrow> main_state option" where
  "main_array_xor st =
     try_catch
       (for_each (array_element_list st) (\<lambda>element. Accept element XORVisitor_vtable)
          (xor_visitor st))
       (\<lambda>(els, v) st. st\<lparr>array_element_list := els, xor_visitor := v\<rparr>) st"

subsection \<open>The StringElement\<close>

definition main_string_sum :: "main_state \<Rightarrow> main_state option" where
  "main_string_sum st =
     try_catch (StringElement_Accept (string_element st) SumVisitor_vtable (sum_visitor st))
       (\<lambda>(el, v) st. st\<lparr>string_element := el, sum_visitor := v\<rparr>) st"

definition main_string_multiply :: "main_state \<Rightarrow> main_state option" where
  "main_string_multiply st =
     try_catch
       (StringElement_Accept (string_element st) MultiplyVisitor_vtable (multiply_visitor st))
       (\<lambda>(el, v) st. st\<lparr>string_element := el, multiply_visitor := v\<rparr>) st"

definition main_string_xor :: "main_state \<Rightarrow> main_state option" where
  "main_string_xor st =
     try_catch (StringElement_Accept (string_element st) XORVisitor_vtable (xor_visitor st))
       (\<lambda>(el, v) st. st\<lparr>string_element := el, xor_visitor := v\<rparr>) st"

subsection \<open>Printing, resetting, and main\<close>

text \<open>The three result lines of a batch (\<open>name\<close> is the text after "of "), then the resets.\<close>

definition main_print_result :: "string \<Rightarrow> main_state \<Rightarrow> main_state" where
  "main_print_result name st =
     st\<lparr>cout := cout st @
       [Str (''Sum of '' @ name @ '': ''), Dbl (SumVisitor_GetValue (sum_visitor st)), Endl,
        Str (''Product of '' @ name @ '': ''),
        Dbl (MultiplyVisitor_GetValue (multiply_visitor st)), Endl,
        Str (''Checksum of '' @ name @ '': ''),
        Num (uint (XORVisitor_GetValue (xor_visitor st))), Endl]\<rparr>"

definition main_reset :: "main_state \<Rightarrow> main_state" where
  "main_reset st =
     st\<lparr>sum_visitor := SumVisitor_Reset (sum_visitor st),
        multiply_visitor := MultiplyVisitor_Reset (multiply_visitor st),
        xor_visitor := XORVisitor_Reset (xor_visitor st)\<rparr>"

definition main_single_batch :: "main_state \<Rightarrow> main_state option" where
  "main_single_batch st0 = do {
     st1 \<leftarrow> main_single_sum st0;
     st2 \<leftarrow> main_single_multiply st1;
     main_single_xor st2
   }"

definition main_array_batch :: "main_state \<Rightarrow> main_state option" where
  "main_array_batch st0 = do {
     st1 \<leftarrow> main_array_sum st0;
     st2 \<leftarrow> main_array_multiply st1;
     main_array_xor st2
   }"

definition main_string_batch :: "main_state \<Rightarrow> main_state option" where
  "main_string_batch st0 = do {
     st1 \<leftarrow> main_string_sum st0;
     st2 \<leftarrow> main_string_multiply st1;
     main_string_xor st2
   }"

text \<open>
  \<^verbatim>\<open>main\<close>: the exit status and the output, or \<open>None\<close> when the behaviour is
  undefined. An exception that left \<^verbatim>\<open>main\<close> would have no place in this type: every
  statement that can throw stands in a \<^verbatim>\<open>try\<close> block of \<open>try_catch\<close>.
\<close>

definition main :: "int \<Rightarrow> string list \<Rightarrow> (int \<times> token list) option" where
  "main argc argv = do {
     st1 \<leftarrow> main_single_batch main_init;
     st2 \<leftarrow> main_array_batch (main_reset (main_print_result ''SingleElement list'' st1));
     st3 \<leftarrow> main_string_batch (main_reset (main_print_result ''ArrayElement list'' st2));
     let st4 = main_reset (main_print_result ''StringElement'' st3);
     Some (0, cout st4)
   }"


section \<open>Reference values\<close>

text \<open>
  The mathematical values the handlers are compared with: the real numbers that are
  the value of some finite double (\<open>representable\<close>), the integer part of a real
  number, and the digit sum and the digit product of a string.
\<close>

definition representable :: "real \<Rightarrow> bool" where
  "representable r = (\<exists>s m e. valid_double (Finite s m e) \<and> valof (Finite s m e) = r)"

definition trunc_toward_zero :: "real \<Rightarrow> int" where
  "trunc_toward_zero r = (if 0 \<le> r then \<lfloor>r\<rfloor> else \<lceil>r\<rceil>)"

definition is_ascii_digit :: "char \<Rightarrow> bool" where
  "is_ascii_digit c = (CHR ''0'' \<le> c \<and> c \<le> CHR ''9'')"

definition digit_value :: "char \<Rightarrow> nat" where
  "digit_value c = (of_char c :: nat) - of_char CHR ''0''"

definition digit_sum :: "string \<Rightarrow> nat" where
  "digit_sum s = sum_list (map digit_value (filter is_ascii_digit s))"

definition digit_product :: "string \<Rightarrow> nat" where
  "digit_product s = prod_list (map digit_value (filter is_ascii_digit s))"

section \<open>Rounding\<close>

text \<open>
  Rounding does not depend on how the exact number is written as \<open>M \<sqdot> 2\<^sup>E\<close>
  (\<open>dround_scale\<close>, \<open>dround_cong\<close>), and it leaves a binary64 value as it is
  (\<open>dround_canonical\<close>). So an operation whose exact result is a binary64 value returns
  that value (\<open>dround_exact\<close>). Whatever is rounded, the result is a binary64 value
  (\<open>valid_dround\<close>).
\<close>

lemma round_shift_exact: "2 ^ d dvd M \<Longrightarrow> round_shift M d = M div 2 ^ d"
  by (auto simp: round_shift_def Let_def mod_eq_0_iff_dvd)

lemma round_shift_scale:
  assumes "0 < d"
  shows "round_shift (M * 2 ^ j) (d + j) = round_shift M d"
proof -
  have q: "(M * 2 ^ j) div 2 ^ (d + j) = M div 2 ^ d"
    by (simp add: power_add)
  have r: "(M * 2 ^ j) mod 2 ^ (d + j) = (M mod 2 ^ d) * 2 ^ j"
    by (simp add: power_add mod_mult_mult2)
  have h: "(2::nat) ^ (d + j - 1) = 2 ^ (d - 1) * 2 ^ j"
    using assms by (simp flip: power_add)
  show ?thesis
    using assms unfolding round_shift_def Let_def q r h by simp
qed

lemma round_shift_bounds: "M div 2 ^ d \<le> round_shift M d" "round_shift M d \<le> M div 2 ^ d + 1"
  by (simp_all add: round_shift_def Let_def)

lemma floorlog_53: "2 ^ 52 \<le> m \<Longrightarrow> m < 2 ^ 53 \<Longrightarrow> floorlog 2 m = 53"
  using floorlog_leI [of m 2 53] floorlog_ge_SucI [of 2 52 m] by simp

lemma floorlog_le_52: "m < 2 ^ 52 \<Longrightarrow> floorlog 2 m \<le> 52"
  using floorlog_leI [of m 2 52] by simp

lemma floorlog_eqI: "2 ^ k \<le> n \<Longrightarrow> n < 2 ^ Suc k \<Longrightarrow> floorlog 2 n = Suc k"
  using floorlog_leI [of n 2 "Suc k"] floorlog_ge_SucI [of 2 k n] by simp

lemma dround_canonical:
  assumes "valid_double (Finite s m e)"
  shows "dround s m e = Finite s m e"
proof (cases "m = 0")
  case True
  with assms show ?thesis by (simp add: dround_def)
next
  case False
  show ?thesis
  proof (cases "2 ^ 52 \<le> m")
    case True
    with assms have "floorlog 2 m = 53" by (simp add: floorlog_53)
    with assms False show ?thesis by (simp add: dround_def Let_def)
  next
    case small: False
    with assms have "floorlog 2 m \<le> 52" "e = - 1074" by (simp_all add: floorlog_le_52)
    then have "max (e + int (floorlog 2 m) - 53) (- 1074) = e" by simp
    with assms False show ?thesis by (simp add: dround_def Let_def)
  qed
qed

lemma dround_scale:
  assumes "0 < M"
  shows "dround s (M * 2 ^ j) (E - int j) = dround s M E"
proof -
  define e where "e = max (E + int (floorlog 2 M) - 53) (- 1074)"
  have e': "max (E - int j + int (floorlog 2 (M * 2 ^ j)) - 53) (- 1074) = e"
    using assms by (simp add: e_def)
  have m: "(if e \<le> E - int j then M * 2 ^ j * 2 ^ nat (E - int j - e)
            else round_shift (M * 2 ^ j) (nat (e - (E - int j))))
         = (if e \<le> E then M * 2 ^ nat (E - e) else round_shift M (nat (e - E)))"
  proof -
    consider (a) "e \<le> E - int j" | (b) "E - int j < e" "e \<le> E" | (c) "E < e" by linarith
    then show ?thesis
    proof cases
      case a
      then have "nat (E - e) = j + nat (E - int j - e)" by simp
      with a show ?thesis by (simp add: power_add)
    next
      case b
      define d where "d = nat (e - (E - int j))"
      have d: "d \<le> j" "nat (E - e) = j - d" using b by (simp_all add: d_def)
      then have "(2::nat) ^ j = 2 ^ (j - d) * 2 ^ d" by (simp flip: power_add)
      then have Mj: "M * 2 ^ j = (M * 2 ^ (j - d)) * 2 ^ d" by simp
      have "round_shift (M * 2 ^ j) d = M * 2 ^ (j - d)"
        unfolding Mj by (subst round_shift_exact) simp_all
      with b d show ?thesis by (simp add: d_def)
    next
      case c
      then have "nat (e - (E - int j)) = nat (e - E) + j" "0 < nat (e - E)" by simp_all
      with c show ?thesis by (simp add: round_shift_scale)
    qed
  qed
  from assms have "M * 2 ^ j \<noteq> 0" by simp
  with assms show ?thesis
    unfolding dround_def Let_def e' m e_def [symmetric] by simp
qed

lemma dround_cong:
  assumes eq: "real M * 2 powi E = real M' * 2 powi E'"
  shows "dround s M E = dround s M' E'"
proof -
  have *: "dround s A B = dround s A' B'"
    if le: "B \<le> B'" and eq: "real A * 2 powi B = real A' * 2 powi B'" for A B A' B'
  proof -
    define j where "j = nat (B' - B)"
    have "real A = real A' * 2 powi B' * 2 powi (- B)"
      using eq by (simp add: power_int_minus field_simps)
    also have "\<dots> = real A' * 2 powi (B' - B)"
      by (simp add: power_int_diff power_int_minus field_simps)
    also have "\<dots> = real (A' * 2 ^ j)"
      using le by (simp add: j_def power_int_def)
    finally have A: "A = A' * 2 ^ j" using of_nat_eq_iff by blast
    show ?thesis
    proof (cases "A' = 0")
      case True
      with A show ?thesis by (simp add: dround_def)
    next
      case False
      have "B = B' - int j" using le by (simp add: j_def)
      with False show ?thesis
        unfolding A using dround_scale [of A' s j B'] by simp
    qed
  qed
  show ?thesis
  proof (cases "E \<le> E'")
    case True
    then show ?thesis using * [OF True eq] by simp
  next
    case False
    then have "E' \<le> E" by simp
    from * [OF this eq [symmetric]] show ?thesis by simp
  qed
qed

lemma dround_exact:
  assumes v: "valid_double (Finite s m e)"
    and eq: "real M * 2 powi E = real m * 2 powi e"
  shows "dround s M E = Finite s m e"
proof (cases "E \<le> e")
  case True
  define j where "j = nat (e - E)"
  have "real M = real m * 2 powi e * 2 powi (- E)"
    using eq by (simp add: power_int_minus field_simps)
  also have "\<dots> = real m * 2 powi (e - E)"
    by (simp add: power_int_diff power_int_minus field_simps)
  also have "\<dots> = real (m * 2 ^ j)"
    using True by (simp add: j_def power_int_def)
  finally have M: "M = m * 2 ^ j" using of_nat_eq_iff by blast
  show ?thesis
  proof (cases "m = 0")
    case True
    with M v show ?thesis by (simp add: dround_def)
  next
    case False
    have "E = e - int j" using True by (simp add: j_def)
    with False show ?thesis
      unfolding M using dround_scale [of m s j e] dround_canonical [OF v] by simp
  qed
next
  case False
  define j where "j = nat (E - e)"
  have "real m = real M * 2 powi E * 2 powi (- e)"
    using eq by (simp add: power_int_minus field_simps)
  also have "\<dots> = real M * 2 powi (E - e)"
    by (simp add: power_int_diff power_int_minus field_simps)
  also have "\<dots> = real (M * 2 ^ j)"
    using False by (simp add: j_def power_int_def)
  finally have m: "m = M * 2 ^ j" using of_nat_eq_iff by blast
  show ?thesis
  proof (cases "M = 0")
    case True
    with m v show ?thesis by (simp add: dround_def)
  next
    case nz: False
    have "e = E - int j" using False by (simp add: j_def)
    with nz show ?thesis
      using dround_scale [of M s j E] dround_canonical [OF v] unfolding m by simp
  qed
qed

lemma valid_dround: "valid_double (dround s M E)"
proof (cases "M = 0")
  case True
  then show ?thesis by (simp add: dround_def)
next
  case False
  define k where "k = floorlog 2 M"
  define e where "e = max (E + int k - 53) (- 1074)"
  define m where "m = (if e \<le> E then M * 2 ^ nat (E - e) else round_shift M (nat (e - E)))"
  have k: "0 < k" "2 ^ (k - 1) \<le> M" "M < 2 ^ k"
    using False floorlog_bounds [of M 2] floorlog_ge_SucI [of 2 0 M]
    by (simp_all add: k_def Suc_le_eq)
  have e: "- 1074 \<le> e" "E + int k - 53 \<le> e" by (simp_all add: e_def)
  have upper: "m \<le> 2 ^ 53"
  proof (cases "e \<le> E")
    case True
    then have "nat (E - e) + k \<le> 53" using e by simp
    have "M * 2 ^ nat (E - e) < 2 ^ k * 2 ^ nat (E - e)" using k by simp
    also have "\<dots> = 2 ^ (nat (E - e) + k)" by (simp add: power_add)
    also have "\<dots> \<le> (2::nat) ^ 53"
      using \<open>nat (E - e) + k \<le> 53\<close> by (intro power_increasing) simp_all
    finally show ?thesis using True by (simp add: m_def)
  next
    case False
    define d where "d = nat (e - E)"
    have d: "k \<le> 53 + d" using e False by (simp add: d_def)
    have "M < 2 ^ (53 + d)"
      using k(3) d by (meson less_le_trans one_le_numeral power_increasing)
    then have "M div 2 ^ d < 2 ^ 53"
      by (simp add: power_add less_mult_imp_div_less)
    then show ?thesis
      using False round_shift_bounds(2) [of M d] by (simp add: m_def d_def)
  qed
  have lower: "2 ^ 52 \<le> m" if norm: "e = E + int k - 53"
  proof (cases "e \<le> E")
    case True
    then have ke: "nat (E - e) = 53 - k" "k \<le> 53" using norm by simp_all
    have "(2::nat) ^ 52 = 2 ^ (k - 1) * 2 ^ (53 - k)"
      using k(1) ke(2) by (simp flip: power_add)
    also have "\<dots> \<le> M * 2 ^ (53 - k)" using k(2) by simp
    finally show ?thesis using True ke by (simp add: m_def)
  next
    case False
    define d where "d = nat (e - E)"
    have d: "k = 53 + d" using norm False by (simp add: d_def)
    have "(2::nat) ^ 52 * 2 ^ d \<le> M" using k(2) by (simp add: d power_add)
    then have "2 ^ 52 \<le> M div 2 ^ d"
      by (simp add: less_eq_div_iff_mult_less_eq)
    then show ?thesis
      using False round_shift_bounds(1) [of M d] by (simp add: m_def d_def)
  qed
  have shape: "2 ^ 52 \<le> m \<or> e = - 1074"
    using lower by (auto simp: e_def max_def)
  have r: "dround s M E =
      (if 971 < (if m = 2 ^ 53 then e + 1 else e) then Infinity s
       else Finite s (if m = 2 ^ 53 then 2 ^ 52 else m) (if m = 2 ^ 53 then e + 1 else e))"
    unfolding dround_def Let_def k_def [symmetric] e_def [symmetric] m_def [symmetric]
    by (simp only: False if_False)
  show ?thesis
    unfolding r using upper shape e(1) by auto
qed

section \<open>Exact operations\<close>

text \<open>
  An addition or a multiplication of finite doubles whose exact result is representable
  returns that result; a fold of such operations computes the exact sum or product.
\<close>

lemma valof_with_sign: "valof (Finite s m e) = real_of_int (with_sign s m) * 2 powi e"
  by (simp add: with_sign_def)

lemma dadd_Finite_value:
  fixes e1 e2 :: int
  defines "e \<equiv> min e1 e2"
  shows "real_of_int (with_sign s1 m1 * 2 ^ nat (e1 - e) + with_sign s2 m2 * 2 ^ nat (e2 - e)) * 2 powi e
     = valof (Finite s1 m1 e1) + valof (Finite s2 m2 e2)"
proof -
  have p: "2 powi e * (2::real) ^ nat (a - e) = 2 powi a" if "e \<le> a" for a
  proof -
    have "(2::real) ^ nat (a - e) = 2 powi (a - e)" using that by (simp add: power_int_def)
    then show ?thesis by (simp add: power_int_diff)
  qed
  have "e \<le> e1" "e \<le> e2" by (simp_all add: e_def)
  then show ?thesis
    unfolding valof_with_sign by (simp add: algebra_simps p)
qed

lemma dadd_eqI:
  assumes v: "valid_double (Finite s m e)"
    and eq: "valof (Finite s m e) = valof (Finite s1 m1 e1) + valof (Finite s2 m2 e2)"
    and zero: "m = 0 \<Longrightarrow> s = (s1 \<and> s2)"
  shows "dadd (Finite s1 m1 e1) (Finite s2 m2 e2) = Finite s m e"
proof -
  define e0 where "e0 = min e1 e2"
  define S where "S = with_sign s1 m1 * 2 ^ nat (e1 - e0) + with_sign s2 m2 * 2 ^ nat (e2 - e0)"
  have val: "real_of_int S * 2 powi e0 = valof (Finite s m e)"
    unfolding S_def e0_def eq by (rule dadd_Finite_value)
  have pos: "(0::real) < 2 powi k" for k by simp
  show ?thesis
  proof (cases "S = 0")
    case True
    with val have "m = 0" by (simp split: if_splits)
    with v zero True show ?thesis by (simp add: S_def e0_def Let_def)
  next
    case False
    have m: "m \<noteq> 0"
    proof
      assume "m = 0"
      with val have "real_of_int S * 2 powi e0 = 0" by simp
      with False show False by simp
    qed
    have sgn: "s = (S < 0)"
    proof (cases s)
      case True
      with val m have "real_of_int S * 2 powi e0 < 0"
        by (simp add: mult_pos_pos)
      then have "real_of_int S < 0" using pos [of e0] by (simp add: mult_less_0_iff)
      with True show ?thesis by simp
    next
      case False
      with val m have "0 < real_of_int S * 2 powi e0" by simp
      then have "0 < real_of_int S" using pos [of e0] by (simp add: zero_less_mult_iff)
      with False show ?thesis by simp
    qed
    have "real (nat \<bar>S\<bar>) * 2 powi e0 = \<bar>real_of_int S * 2 powi e0\<bar>"
      by (simp add: abs_mult)
    also have "\<dots> = real m * 2 powi e"
      unfolding val by (simp add: abs_mult)
    finally have "dround (S < 0) (nat \<bar>S\<bar>) e0 = Finite (S < 0) m e"
      using v by (intro dround_exact) simp_all
    with False sgn show ?thesis by (simp add: S_def e0_def Let_def)
  qed
qed

lemma dmul_eqI:
  assumes v: "valid_double (Finite (s1 \<noteq> s2) m e)"
    and eq: "real m * 2 powi e = (real m1 * 2 powi e1) * (real m2 * 2 powi e2)"
  shows "dmul (Finite s1 m1 e1) (Finite s2 m2 e2) = Finite (s1 \<noteq> s2) m e"
proof -
  have "real (m1 * m2) * 2 powi (e1 + e2) = real m * 2 powi e"
    unfolding eq by (simp add: power_int_add)
  then show ?thesis using v by (simp add: dround_exact)
qed

lemma representableI:
  "valid_double (Finite s m e) \<Longrightarrow> valof (Finite s m e) = r \<Longrightarrow> representable r"
  unfolding representable_def by blast

lemma dadd_exact:
  assumes "is_finite x" "is_finite y" "representable (valof x + valof y)"
  shows "is_finite (dadd x y) \<and> valid_double (dadd x y) \<and> valof (dadd x y) = valof x + valof y"
proof -
  from assms(1) obtain s1 m1 e1 where x: "x = Finite s1 m1 e1" by (cases x) simp_all
  from assms(2) obtain s2 m2 e2 where y: "y = Finite s2 m2 e2" by (cases y) simp_all
  from assms(3) obtain s m e where v: "valid_double (Finite s m e)"
    and eq: "valof (Finite s m e) = valof x + valof y"
    by (auto simp: representable_def)
  define s' where "s' = (if m = 0 then s1 \<and> s2 else s)"
  have same: "valof (Finite s' m e) = valof (Finite s m e)"
    by (cases "m = 0") (simp_all add: s'_def)
  have "valid_double (Finite s' m e)" using v by simp
  moreover have "valof (Finite s' m e) = valof (Finite s1 m1 e1) + valof (Finite s2 m2 e2)"
    unfolding same eq x y ..
  moreover have "m = 0 \<Longrightarrow> s' = (s1 \<and> s2)" by (simp add: s'_def)
  ultimately have "dadd x y = Finite s' m e" unfolding x y by (rule dadd_eqI)
  moreover have "valof (Finite s' m e) = valof x + valof y"
    unfolding same eq ..
  ultimately show ?thesis using v by simp
qed

lemma dmul_exact:
  assumes "is_finite x" "is_finite y" "representable (valof x * valof y)"
  shows "is_finite (dmul x y) \<and> valid_double (dmul x y) \<and> valof (dmul x y) = valof x * valof y"
proof -
  from assms(1) obtain s1 m1 e1 where x: "x = Finite s1 m1 e1" by (cases x) simp_all
  from assms(2) obtain s2 m2 e2 where y: "y = Finite s2 m2 e2" by (cases y) simp_all
  from assms(3) obtain s m e where v: "valid_double (Finite s m e)"
    and eq: "valof (Finite s m e) = valof x * valof y"
    by (auto simp: representable_def)
  have "\<bar>valof (Finite s m e)\<bar> = \<bar>valof x\<bar> * \<bar>valof y\<bar>"
    unfolding eq by (rule abs_mult)
  then have mag: "real m * 2 powi e = (real m1 * 2 powi e1) * (real m2 * 2 powi e2)"
    by (simp add: x y abs_mult split: if_splits)
  have "valid_double (Finite (s1 \<noteq> s2) m e)" using v by simp
  then have r: "dmul x y = Finite (s1 \<noteq> s2) m e"
    unfolding x y using mag by (rule dmul_eqI)
  have "valof (Finite (s1 \<noteq> s2) m e) = valof x * valof y"
    unfolding x y by (simp add: mag)
  with r v show ?thesis by simp
qed

lemma valid_dadd: "valid_double (dadd x y)"
  by (cases x; cases y) (simp_all add: Let_def valid_dround)

lemma valid_dmul: "valid_double (dmul x y)"
  by (cases x; cases y) (simp_all add: valid_dround)

lemma accumulate_foldl: "accumulate xs init f = foldl f init xs"
  by (induction xs arbitrary: init) simp_all

lemma accumulate_dadd_exact:
  assumes "is_finite a" "\<forall>x\<in>set v. is_finite x"
    and "\<forall>k\<le>length v. representable (valof a + (\<Sum>x\<leftarrow>take k v. valof x))"
  shows "is_finite (accumulate v a dadd)
    \<and> valof (accumulate v a dadd) = valof a + (\<Sum>x\<leftarrow>v. valof x)"
  using assms
proof (induction v arbitrary: a)
  case Nil
  then show ?case by simp
next
  case (Cons x xs)
  from Cons.prems(3) have "representable (valof a + (\<Sum>y\<leftarrow>take 1 (x # xs). valof y))"
    by (rule allE [where x = 1]) simp
  then have "representable (valof a + valof x)" by simp
  with Cons.prems have ax: "is_finite (dadd a x)" "valof (dadd a x) = valof a + valof x"
    using dadd_exact [of a x] by simp_all
  have "\<forall>k\<le>length xs. representable (valof (dadd a x) + (\<Sum>y\<leftarrow>take k xs. valof y))"
  proof (intro allI impI)
    fix k assume "k \<le> length xs"
    then have "Suc k \<le> length (x # xs)" by simp
    with Cons.prems(3) have "representable (valof a + (\<Sum>y\<leftarrow>take (Suc k) (x # xs). valof y))"
      by blast
    then show "representable (valof (dadd a x) + (\<Sum>y\<leftarrow>take k xs. valof y))"
      by (simp add: ax add.assoc)
  qed
  with Cons.IH [of "dadd a x"] ax Cons.prems(2) show ?case by (simp add: add.assoc)
qed

lemma accumulate_dmul_exact:
  assumes "is_finite a" "\<forall>x\<in>set v. is_finite x"
    and "\<forall>k\<le>length v. representable (valof a * (\<Prod>x\<leftarrow>take k v. valof x))"
  shows "is_finite (accumulate v a dmul)
    \<and> valof (accumulate v a dmul) = valof a * (\<Prod>x\<leftarrow>v. valof x)"
  using assms
proof (induction v arbitrary: a)
  case Nil
  then show ?case by simp
next
  case (Cons x xs)
  from Cons.prems(3) have "representable (valof a * (\<Prod>y\<leftarrow>take 1 (x # xs). valof y))"
    by (rule allE [where x = 1]) simp
  then have "representable (valof a * valof x)" by simp
  with Cons.prems have ax: "is_finite (dmul a x)" "valof (dmul a x) = valof a * valof x"
    using dmul_exact [of a x] by simp_all
  have "\<forall>k\<le>length xs. representable (valof (dmul a x) * (\<Prod>y\<leftarrow>take k xs. valof y))"
  proof (intro allI impI)
    fix k assume "k \<le> length xs"
    then have "Suc k \<le> length (x # xs)" by simp
    with Cons.prems(3) have "representable (valof a * (\<Prod>y\<leftarrow>take (Suc k) (x # xs). valof y))"
      by blast
    then show "representable (valof (dmul a x) * (\<Prod>y\<leftarrow>take k xs. valof y))"
      by (simp add: ax mult.assoc)
  qed
  with Cons.IH [of "dmul a x"] ax Cons.prems(2) show ?case by (simp add: mult.assoc)
qed

section \<open>Literals and conversions\<close>

text \<open>
  The natural numbers below \<open>2\<^sup>5\<^sup>3\<close> are doubles, and on them the double operations are
  the operations of the natural numbers, rounded. The conversion to \<^verbatim>\<open>int\<close> is the
  truncation toward zero of the value.
\<close>

lemma representable_natD:
  assumes "representable (real n)"
  obtains m e where "valid_double (Finite False m e)" "real m * 2 powi e = real n"
proof -
  from assms obtain s m e where v: "valid_double (Finite s m e)"
    and eq: "valof (Finite s m e) = real n"
    by (auto simp: representable_def)
  show thesis
  proof (cases s)
    case False
    with v eq that show ?thesis by simp
  next
    case True
    with eq have "real m * 2 powi e = - real n" by simp
    moreover have "0 \<le> real m * 2 powi e" by simp
    ultimately have "real n = 0" "real m * 2 powi e = 0" by linarith+
    with v that [of m e] show ?thesis by simp
  qed
qed

lemma double_literal_exact:
  assumes "valid_double (Finite False m e)" "real m * 2 powi e = real n"
  shows "double_literal n = Finite False m e"
  unfolding double_literal_def using assms by (intro dround_exact) simp_all

lemma representable_nat:
  assumes "n < 2 ^ 53"
  shows "representable (real n)"
proof (cases "n = 0")
  case True
  have "valid_double (Finite False 0 (- 1074))" by simp
  moreover have "valof (Finite False 0 (- 1074)) = real n" using True by simp
  ultimately show ?thesis unfolding representable_def by blast
next
  case False
  define k where "k = floorlog 2 n"
  have k: "0 < k" "k \<le> 53" "2 ^ (k - 1) \<le> n" "n < 2 ^ k"
    using False assms floorlog_bounds [of n 2] floorlog_leI [of n 2 53]
      floorlog_ge_SucI [of 2 0 n]
    by (simp_all add: k_def Suc_le_eq)
  define m where "m = n * 2 ^ (53 - k)"
  have "n * 2 ^ (53 - k) < 2 ^ k * 2 ^ (53 - k)" using k by simp
  also have "\<dots> = (2::nat) ^ 53" using k by (simp flip: power_add)
  finally have up: "m < 2 ^ 53" by (simp add: m_def)
  have "(2::nat) ^ 52 = 2 ^ (k - 1) * 2 ^ (53 - k)" using k by (simp flip: power_add)
  also have "\<dots> \<le> n * 2 ^ (53 - k)" using k by simp
  finally have lo: "2 ^ 52 \<le> m" by (simp add: m_def)
  have v: "valid_double (Finite False m (int k - 53))" using up lo k by simp
  have "(2::real) ^ (53 - k) = 2 powi int (53 - k)" by simp
  also have "int (53 - k) = 53 - int k" using k by simp
  finally have "(2::real) ^ (53 - k) * 2 powi (int k - 53) = 2 powi (53 - int k + (int k - 53))"
    by (subst power_int_add) simp_all
  then have "(2::real) ^ (53 - k) * 2 powi (int k - 53) = 1" by simp
  then have "valof (Finite False m (int k - 53)) = real n"
    by (simp add: m_def mult.assoc)
  with v show ?thesis unfolding representable_def by blast
qed

lemma double_literal_Finite:
  assumes "representable (real n)"
  obtains m e where "double_literal n = Finite False m e" "valid_double (Finite False m e)"
    "real m * 2 powi e = real n"
  using assms by (elim representable_natD) (blast intro: double_literal_exact)

lemma valof_double_literal:
  assumes "representable (real n)"
  shows "valof (double_literal n) = real n" "valid_double (double_literal n)"
    "is_finite (double_literal n)"
  using assms by (auto elim!: double_literal_Finite)

lemma valid_double_literal: "valid_double (double_literal n)"
  by (simp add: double_literal_def valid_dround)

lemma double_literal_0: "double_literal 0 = Finite False 0 (- 1074)"
  by (simp add: double_literal_def dround_def)

lemma double_literal_1: "double_literal (Suc 0) = Finite False (2 ^ 52) (- 52)"
  by (rule double_literal_exact) simp_all

lemma double_literal_eval:
  assumes "2 ^ k \<le> n" "n < 2 ^ Suc k"
  shows "double_literal n =
     (let e = max (int (Suc k) - 53) (- 1074);
          m = (if e \<le> 0 then n * 2 ^ nat (- e) else round_shift n (nat e))
      in if 971 < (if m = 2 ^ 53 then e + 1 else e) then Infinity False
         else Finite False (if m = 2 ^ 53 then 2 ^ 52 else m) (if m = 2 ^ 53 then e + 1 else e))"
proof -
  have "n \<noteq> 0" using assms(1) by (cases "n = 0") simp_all
  then show ?thesis
    unfolding double_literal_def dround_def floorlog_eqI [OF assms] Let_def by simp
qed

lemma dadd_literal:
  assumes "representable (real a)" "representable (real b)"
  shows "dadd (double_literal a) (double_literal b) = double_literal (a + b)"
proof -
  from assms(1) obtain ma ea where a: "double_literal a = Finite False ma ea"
    "real ma * 2 powi ea = real a" by (rule double_literal_Finite)
  from assms(2) obtain mb eb where b: "double_literal b = Finite False mb eb"
    "real mb * 2 powi eb = real b" by (rule double_literal_Finite)
  define e0 where "e0 = min ea eb"
  define S where "S = with_sign False ma * 2 ^ nat (ea - e0) + with_sign False mb * 2 ^ nat (eb - e0)"
  have val: "real_of_int S * 2 powi e0 = real (a + b)"
    unfolding S_def e0_def dadd_Finite_value using a b by simp
  have S0: "0 \<le> S" by (simp add: S_def with_sign_def)
  show ?thesis
  proof (cases "S = 0")
    case True
    with val have "a + b = 0" by simp
    with True show ?thesis
      unfolding a b by (simp add: S_def e0_def Let_def double_literal_def dround_def)
  next
    case False
    with S0 have "\<not> S < 0" by simp
    moreover have "real (nat \<bar>S\<bar>) * 2 powi e0 = real (a + b) * 2 powi 0"
      using S0 val by simp
    then have "dround False (nat \<bar>S\<bar>) e0 = dround False (a + b) 0"
      by (rule dround_cong)
    ultimately show ?thesis
      using False unfolding a b by (simp add: S_def e0_def Let_def double_literal_def)
  qed
qed

lemma dmul_literal:
  assumes "representable (real a)" "representable (real b)"
  shows "dmul (double_literal a) (double_literal b) = double_literal (a * b)"
proof -
  from assms(1) obtain ma ea where a: "double_literal a = Finite False ma ea"
    "real ma * 2 powi ea = real a" by (rule double_literal_Finite)
  from assms(2) obtain mb eb where b: "double_literal b = Finite False mb eb"
    "real mb * 2 powi eb = real b" by (rule double_literal_Finite)
  have "real (ma * mb) * 2 powi (ea + eb) = (real ma * 2 powi ea) * (real mb * 2 powi eb)"
    by (simp add: power_int_add)
  also have "\<dots> = real (a * b) * 2 powi 0" using a b by simp
  finally have "dround False (ma * mb) (ea + eb) = dround False (a * b) 0"
    by (rule dround_cong)
  then show ?thesis unfolding a b by (simp add: double_literal_def)
qed

lemma dadd_literal_small:
  "a < 2 ^ 53 \<Longrightarrow> b < 2 ^ 53 \<Longrightarrow> dadd (double_literal a) (double_literal b) = double_literal (a + b)"
  by (simp add: dadd_literal representable_nat)

lemma dmul_literal_small:
  "a < 2 ^ 53 \<Longrightarrow> b < 2 ^ 53 \<Longrightarrow> dmul (double_literal a) (double_literal b) = double_literal (a * b)"
  by (simp add: dmul_literal representable_nat)

lemma dmul_one:
  assumes "valid_double x"
  shows "dmul x (double_literal (Suc 0)) = x"
proof (cases x)
  case (Finite s m e)
  have "dmul (Finite s m e) (Finite False (2 ^ 52) (- 52)) = Finite (s \<noteq> False) m e"
    using assms unfolding Finite by (intro dmul_eqI) simp_all
  then show ?thesis by (simp add: Finite double_literal_1)
qed (simp_all add: double_literal_1)

lemma dmul_one_left:
  assumes "valid_double x"
  shows "dmul (double_literal (Suc 0)) x = x"
proof (cases x)
  case (Finite s m e)
  have "dmul (Finite False (2 ^ 52) (- 52)) (Finite s m e) = Finite (False \<noteq> s) m e"
    using assms unfolding Finite by (intro dmul_eqI) simp_all
  then show ?thesis by (simp add: Finite double_literal_1)
qed (simp_all add: double_literal_1)

lemma int_to_double_nat: "0 \<le> i \<Longrightarrow> int_to_double i = double_literal (nat i)"
  by (simp add: int_to_double_def double_literal_def)

lemma valof_int_to_double:
  assumes "\<bar>i\<bar> < 2 ^ 53"
  shows "valof (int_to_double i) = real_of_int i \<and> valid_double (int_to_double i)
    \<and> is_finite (int_to_double i)"
proof -
  have "nat \<bar>i\<bar> < 2 ^ 53" using assms by (simp add: nat_less_iff)
  then have "representable (real (nat \<bar>i\<bar>))" by (rule representable_nat)
  then obtain m e where v: "valid_double (Finite False m e)"
    and eq: "real m * 2 powi e = real (nat \<bar>i\<bar>)" by (rule representable_natD)
  from v have "valid_double (Finite (i < 0) m e)" by simp
  moreover from eq have "real (nat \<bar>i\<bar>) * 2 powi 0 = real m * 2 powi e" by simp
  ultimately have "int_to_double i = Finite (i < 0) m e"
    unfolding int_to_double_def by (rule dround_exact)
  with v eq show ?thesis by (simp split: if_splits)
qed

lemma valid_int_to_double: "valid_double (int_to_double i)"
  by (simp add: int_to_double_def valid_dround)

lemma trunc_magnitude_floor: "int (trunc_magnitude m e) = \<lfloor>real m * 2 powi e\<rfloor>"
proof (cases "0 \<le> e")
  case True
  then have "real m * 2 powi e = real (m * 2 ^ nat e)" by (simp add: power_int_def)
  then have "\<lfloor>real m * 2 powi e\<rfloor> = int (m * 2 ^ nat e)" by (simp only: floor_of_nat)
  with True show ?thesis by (simp add: trunc_magnitude_def)
next
  case False
  then have "real m * 2 powi e = real m / real (2 ^ nat (- e))"
    by (simp add: power_int_def field_simps)
  then have "\<lfloor>real m * 2 powi e\<rfloor> = int (m div 2 ^ nat (- e))"
    by (simp only: floor_divide_of_nat_eq)
  with False show ?thesis by (simp add: trunc_magnitude_def)
qed

lemma with_sign_trunc_magnitude:
  "with_sign s (trunc_magnitude m e) = trunc_toward_zero (valof (Finite s m e))"
proof (cases "s \<and> m \<noteq> 0")
  case True
  define a where "a = real m * 2 powi e"
  have "0 < a" using True by (simp add: a_def)
  then have "trunc_toward_zero (- a) = \<lceil>- a\<rceil>" by (simp add: trunc_toward_zero_def)
  also have "\<dots> = - \<lfloor>a\<rfloor>" by (rule ceiling_minus)
  finally have "trunc_toward_zero (- a) = - int (trunc_magnitude m e)"
    by (simp add: a_def trunc_magnitude_floor)
  moreover have "valof (Finite s m e) = - a" using True by (simp add: a_def)
  ultimately show ?thesis using True by (simp add: with_sign_def)
next
  case False
  show ?thesis
  proof (cases s)
    case True
    with False have "m = 0" by simp
    then have "int (trunc_magnitude m e) = 0" by (simp add: trunc_magnitude_floor)
    with \<open>m = 0\<close> show ?thesis by (simp add: trunc_toward_zero_def with_sign_def)
  next
    case pos: False
    then show ?thesis by (simp add: trunc_toward_zero_def with_sign_def trunc_magnitude_floor)
  qed
qed

lemma double_to_int_Finite:
  "double_to_int (Finite s m e) =
     (if INT_MIN \<le> trunc_toward_zero (valof (Finite s m e))
         \<and> trunc_toward_zero (valof (Finite s m e)) \<le> INT_MAX
      then Some (trunc_toward_zero (valof (Finite s m e))) else None)"
  by (simp add: with_sign_trunc_magnitude Let_def)


lemma double_to_int_literal:
  assumes "n < 2 ^ 53"
  shows "double_to_int (double_literal n) = (if int n \<le> INT_MAX then Some (int n) else None)"
proof -
  from assms have "representable (real n)" by (rule representable_nat)
  then obtain m e where l: "double_literal n = Finite False m e" "real m * 2 powi e = real n"
    by (rule double_literal_Finite)
  then have "trunc_toward_zero (valof (double_literal n)) = int n"
    by (simp add: trunc_toward_zero_def)
  then show ?thesis
    unfolding l(1) double_to_int_Finite by (simp add: INT_MIN_def)
qed

lemmas valof_simps = power_int_minus_left power_int_minus divide_simps

lemmas literal_simps =
  double_to_int_literal int_to_double_nat dadd_literal_small dmul_literal_small
  INT_MAX_def

section \<open>Characters and digits\<close>

lemma uint_of_char: "uint (of_char c :: 8 word) = int (of_char c)"
proof -
  have "(of_char c :: 8 word) = of_nat (of_char c)" by (simp add: of_nat_of_char)
  then have "uint (of_char c :: 8 word) = int (of_char c mod 256)"
    by (simp only: uint_nat unat_of_nat) simp
  then show ?thesis by simp
qed

lemma isdigit_of_char: "isdigit (uint (of_char c :: 8 word)) \<longleftrightarrow> is_ascii_digit c"
  by (simp add: isdigit_def is_ascii_digit_def uint_of_char less_eq_char_def)

lemma digit_of_char:
  "is_ascii_digit c \<Longrightarrow> nat (uint (of_char c :: 8 word) - 48) = digit_value c"
  by (simp add: digit_value_def uint_of_char nat_diff_distrib)

lemma digit_value_le_9: "is_ascii_digit c \<Longrightarrow> digit_value c \<le> 9"
  unfolding digit_value_def is_ascii_digit_def less_eq_char_def by simp linarith

lemma int_to_double_digit:
  assumes "is_ascii_digit c"
  shows "int_to_double (uint (of_char c :: 8 word) - 48) = double_literal (digit_value c)"
proof -
  from assms have "(48::nat) \<le> of_char c"
    by (simp add: is_ascii_digit_def less_eq_char_def)
  then have "0 \<le> uint (of_char c :: 8 word) - 48" by (simp add: uint_of_char)
  then show ?thesis
    using assms by (simp add: int_to_double_nat digit_of_char)
qed

lemma SumVisitor_lambda_literal:
  assumes "a < 2 ^ 53"
  shows "SumVisitor_lambda (double_literal a) (of_char c) =
     double_literal (a + digit_sum [c])"
proof (cases "is_ascii_digit c")
  case True
  then have "digit_value c < 2 ^ 53" using digit_value_le_9 [of c] by simp
  with True assms show ?thesis
    by (simp add: SumVisitor_lambda_def isdigit_of_char digit_sum_def int_to_double_digit
        dadd_literal_small)
next
  case False
  then show ?thesis by (simp add: SumVisitor_lambda_def isdigit_of_char digit_sum_def)
qed

lemma MultiplyVisitor_lambda_literal:
  assumes "a < 2 ^ 53"
  shows "MultiplyVisitor_lambda_multiply (double_literal a) (of_char c) =
     double_literal (a * digit_product [c])"
proof (cases "is_ascii_digit c")
  case True
  then have "digit_value c < 2 ^ 53" using digit_value_le_9 [of c] by simp
  with True assms show ?thesis
    by (simp add: MultiplyVisitor_lambda_multiply_def isdigit_of_char digit_product_def
        int_to_double_digit dmul_literal_small)
next
  case False
  then show ?thesis
    by (simp add: MultiplyVisitor_lambda_multiply_def isdigit_of_char digit_product_def)
qed

lemma digit_sum_Cons: "digit_sum (c # s) = digit_sum [c] + digit_sum s"
  by (simp add: digit_sum_def)

lemma digit_product_Cons: "digit_product (c # s) = digit_product [c] * digit_product s"
  by (simp add: digit_product_def)

lemma accumulate_digit_sum:
  assumes "\<forall>k<length s. a + digit_sum (take k s) < 2 ^ 53"
  shows "accumulate s (double_literal a) (\<lambda>sum_acc c. SumVisitor_lambda sum_acc (of_char c))
    = double_literal (a + digit_sum s)"
  using assms
proof (induction s arbitrary: a)
  case Nil
  then show ?case by (simp add: digit_sum_def)
next
  case (Cons c s)
  from Cons.prems have a: "a < 2 ^ 53"
    by (auto dest: spec [where x = 0] simp: digit_sum_def)
  have "\<forall>k<length s. a + digit_sum [c] + digit_sum (take k s) < 2 ^ 53"
  proof (intro allI impI)
    fix k assume "k < length s"
    then have "Suc k < length (c # s)" by simp
    with Cons.prems have "a + digit_sum (take (Suc k) (c # s)) < 2 ^ 53" by blast
    then show "a + digit_sum [c] + digit_sum (take k s) < 2 ^ 53"
      by (simp add: digit_sum_Cons [of c "take k s"] add.assoc)
  qed
  from Cons.IH [OF this] a show ?case
    by (simp add: SumVisitor_lambda_literal digit_sum_Cons [of c s] add.assoc)
qed

lemma accumulate_digit_product:
  assumes "\<forall>k<length s. a * digit_product (take k s) < 2 ^ 53"
  shows "accumulate s (double_literal a)
      (\<lambda>prod_acc c. MultiplyVisitor_lambda_multiply prod_acc (of_char c))
    = double_literal (a * digit_product s)"
  using assms
proof (induction s arbitrary: a)
  case Nil
  then show ?case by (simp add: digit_product_def)
next
  case (Cons c s)
  from Cons.prems have a: "a < 2 ^ 53"
    by (auto dest: spec [where x = 0] simp: digit_product_def)
  have "\<forall>k<length s. a * digit_product [c] * digit_product (take k s) < 2 ^ 53"
  proof (intro allI impI)
    fix k assume "k < length s"
    then have "Suc k < length (c # s)" by simp
    with Cons.prems have "a * digit_product (take (Suc k) (c # s)) < 2 ^ 53" by blast
    then show "a * digit_product [c] * digit_product (take k s) < 2 ^ 53"
      by (simp add: digit_product_Cons [of c "take k s"] mult.assoc)
  qed
  from Cons.IH [OF this] a show ?case
    by (simp add: MultiplyVisitor_lambda_literal digit_product_Cons [of c s] mult.assoc)
qed

lemma digit_sum_take_le: "digit_sum (take k s) \<le> digit_sum s"
proof (induction s arbitrary: k)
  case Nil
  then show ?case by simp
next
  case (Cons c s)
  show ?case
  proof (cases k)
    case 0
    then show ?thesis by (simp add: digit_sum_def)
  next
    case (Suc j)
    with Cons [of j] show ?thesis
      by (simp add: digit_sum_Cons [of c s] digit_sum_Cons [of c "take j s"])
  qed
qed

lemma digit_sum_le: "digit_sum s \<le> 9 * length s"
proof (induction s)
  case Nil
  then show ?case by (simp add: digit_sum_def)
next
  case (Cons c s)
  have "digit_sum [c] \<le> 9"
    using digit_value_le_9 [of c] by (simp add: digit_sum_def)
  with Cons show ?case by (simp add: digit_sum_Cons [of c s])
qed

lemma digit_product_le: "digit_product s \<le> 9 ^ length s"
proof (induction s)
  case Nil
  then show ?case by (simp add: digit_product_def)
next
  case (Cons c s)
  have "digit_product [c] \<le> 9"
    using digit_value_le_9 [of c] by (simp add: digit_product_def)
  from this Cons have "digit_product [c] * digit_product s \<le> 9 * 9 ^ length s"
    by (rule mult_le_mono)
  then show ?case by (simp add: digit_product_Cons [of c s])
qed

lemmas digit_simps =
  digit_sum_def digit_product_def digit_value_def is_ascii_digit_def less_eq_char_def

lemma accumulate_xor:
  "(word_of_int
      (accumulate s a (\<lambda>acc c. XORVisitor_lambda_xor (word_of_int acc) (of_char c))) :: 8 word)
     = foldl (\<lambda>x c. x XOR of_char c) (word_of_int a) s"
  by (induction s arbitrary: a) (simp_all add: XORVisitor_lambda_xor_def flip: uint_xor)

section \<open>Dispatch and the run of main\<close>

lemmas handler_simps =
  SingleElement_Accept_def ArrayElement_Accept_def StringElement_Accept_def
  SumVisitor_vtable_def MultiplyVisitor_vtable_def XORVisitor_vtable_def
  ForEachAdapter_call_def

lemma for_each_XOR_Single:
  "for_each (Single el # els) (\<lambda>element. Accept element XORVisitor_vtable) v =
     Thrown (runtime_error ''Error: Cannot apply XOR operation to SingleElement type'')
       (Single el # els, v)"
  by (cases v) (simp add: handler_simps)






lemmas main_simps =
  main_single_batch_def main_single_sum_def main_single_multiply_def main_single_xor_def
  main_array_batch_def main_array_sum_def main_array_multiply_def main_array_xor_def
  main_string_batch_def main_string_sum_def main_string_multiply_def main_string_xor_def
  main_print_result_def main_reset_def main_init_def initial_values_def
  SumVisitor_new_def MultiplyVisitor_new_def XORVisitor_new_def
  SumVisitor_lambda_def MultiplyVisitor_lambda_multiply_def XORVisitor_lambda_xor_def isdigit_def

lemma main_single_batch_result:
  "main_single_batch main_init = Some (main_init
     \<lparr>sum_visitor := SumVisitor (double_literal 45),
      multiply_visitor := MultiplyVisitor (double_literal 362880),
      cout := [Str ''Error: Cannot apply XOR operation to SingleElement type'', Endl]\<rparr>)"
  by (simp add: main_simps handler_simps literal_simps)

lemma main_result:
  "main argc argv = Some (0,
     [Str ''Error: Cannot apply XOR operation to SingleElement type'', Endl,
      Str ''Sum of SingleElement list: '', Dbl (double_literal 45), Endl,
      Str ''Product of SingleElement list: '', Dbl (double_literal 362880), Endl,
      Str ''Checksum of SingleElement list: '', Num 0, Endl,
      Str ''Error: Cannot apply XOR operation to ArrayElement type'', Endl,
      Str ''Sum of ArrayElement list: '', Dbl (double_literal 45), Endl,
      Str ''Product of ArrayElement list: '', Dbl (double_literal 362880), Endl,
      Str ''Checksum of ArrayElement list: '', Num 0, Endl,
      Str ''Sum of StringElement: '', Dbl (double_literal 45), Endl,
      Str ''Product of StringElement: '', Dbl (double_literal 362880), Endl,
      Str ''Checksum of StringElement: '', Num 51, Endl])"
  by (simp add: main_def main_simps handler_simps literal_simps)

section \<open>Example values\<close>

lemma le_2_cases: "k \<le> 2 \<Longrightarrow> k = 0 \<or> k = Suc 0 \<or> k = 2"
  by arith

lemma example_fractions:
  "valof (Finite False (2 ^ 52) (- 53)) = 1 / 2"
  "valof (Finite False (2 ^ 52) (- 54)) = 1 / 4"
  "valof (Finite False 6755399441055744 (- 53)) = 3 / 4"
  "valof (Finite False 6755399441055744 (- 52)) = 3 / 2"
  "valof (Finite False 7881299347898368 (- 52)) = 7 / 4"
  by (simp_all add: valof_simps)

lemma example_representable:
  "representable 0" "representable 1" "representable (1 / 2)" "representable (3 / 4)"
  "representable (7 / 4)" "representable (3 / 2)" "representable 3"
proof -
  show "representable 0" using representable_nat [of 0] by simp
  show "representable 1" using representable_nat [of 1] by simp
  show "representable 3" using representable_nat [of 3] by simp
  show "representable (1 / 2)"
    by (rule representableI [OF _ example_fractions(1)]) simp
  show "representable (3 / 4)"
    by (rule representableI [OF _ example_fractions(3)]) simp
  show "representable (7 / 4)"
    by (rule representableI [OF _ example_fractions(5)]) simp
  show "representable (3 / 2)"
    by (rule representableI [OF _ example_fractions(4)]) simp
qed

lemma two_and_a_half:
  "valof (Finite False 5629499534213120 (- 51)) = 5 / 2"
  "trunc_toward_zero (5 / 2) = 2"
  by (simp_all add: valof_simps trunc_toward_zero_def)

lemma double_literal_2_53:
  "double_literal 9007199254740992 = Finite False (2 ^ 52) 1"
  "double_literal 9007199254740993 = Finite False (2 ^ 52) 1"
  "double_literal 9007199254740994 = Finite False 4503599627370497 1"
  by (simp_all add: double_literal_eval [of 53] round_shift_def)

lemma representable_2_53: "representable (real 9007199254740992)"
  by (rule representableI [of False "2 ^ 52" 1]) simp_all

section \<open>The claims\<close>

text \<open>
  C1 (as amended). When the XOR visitor is dispatched over the batch of nine scalar
  elements, the first dispatch throws the unsupported-operation error, the exception
  leaves \<^verbatim>\<open>std::for_each\<close> and is caught by the one \<^verbatim>\<open>try\<close> block around the
  batch: exactly one error line is printed, the other eight elements are not
  dispatched, and the XOR accumulator is 0 afterwards. The whole output of \<^verbatim>\<open>main\<close>
  holds that error line once.
\<close>

theorem XOR_single_batch_one_error_line:
  "(case main_single_batch main_init of
      None \<Rightarrow> False
    | Some st \<Rightarrow>
        cout st = [Str ''Error: Cannot apply XOR operation to SingleElement type'', Endl]
        \<and> XORVisitor_GetValue (xor_visitor st) = 0)
   \<and> for_each (Single el # els) (\<lambda>element. Accept element XORVisitor_vtable) v =
       Thrown (runtime_error ''Error: Cannot apply XOR operation to SingleElement type'')
         (Single el # els, v)
   \<and> map_option
         (\<lambda>r. count_list (snd r)
            (Str ''Error: Cannot apply XOR operation to SingleElement type''))
         (main argc argv) = Some 1"
  unfolding main_single_batch_result for_each_XOR_Single main_result
  by (simp add: main_init_def XORVisitor_new_def)

text \<open>
  The batch does not print nine error lines: the line is in the output once.
\<close>

theorem XOR_single_batch_not_nine_error_lines:
  "(case main_single_batch main_init of
      None \<Rightarrow> False
    | Some st \<Rightarrow>
        count_list (cout st) (Str ''Error: Cannot apply XOR operation to SingleElement type'')
          \<noteq> 9)"
  by (simp add: main_single_batch_result)

text \<open>
  C2 (as amended). For every finite double \<open>x\<close> whose integer part (\<open>x\<close> truncated
  toward zero) is an \<^verbatim>\<open>int\<close>, the scalar handler of the sum visitor adds that integer
  part, converted back to double without loss, to the accumulator (a double addition),
  and the scalar handler of the product visitor multiplies the accumulator by it (a
  double multiplication); \<open>x\<close> itself does not enter the operation. The operation is
  exact whenever the accumulator is finite and the exact result is a double.
\<close>

theorem scalar_handlers_truncate:
  assumes "is_finite x"
    and "INT_MIN \<le> trunc_toward_zero (valof x)"
    and "trunc_toward_zero (valof x) \<le> INT_MAX"
  shows "SumVisitor_ProcessSingleElement (SumVisitor acc) (SingleElement x) =
      Returned (SumVisitor (dadd acc (int_to_double (trunc_toward_zero (valof x)))))
    \<and> MultiplyVisitor_ProcessSingleElement (MultiplyVisitor acc) (SingleElement x) =
      Returned (MultiplyVisitor (dmul acc (int_to_double (trunc_toward_zero (valof x)))))
    \<and> is_finite (int_to_double (trunc_toward_zero (valof x)))
    \<and> valof (int_to_double (trunc_toward_zero (valof x)))
        = real_of_int (trunc_toward_zero (valof x))
    \<and> (is_finite acc
          \<and> representable (valof acc + real_of_int (trunc_toward_zero (valof x))) \<longrightarrow>
        valof (dadd acc (int_to_double (trunc_toward_zero (valof x))))
          = valof acc + real_of_int (trunc_toward_zero (valof x)))
    \<and> (is_finite acc
          \<and> representable (valof acc * real_of_int (trunc_toward_zero (valof x))) \<longrightarrow>
        valof (dmul acc (int_to_double (trunc_toward_zero (valof x))))
          = valof acc * real_of_int (trunc_toward_zero (valof x)))"
proof -
  define t where "t = trunc_toward_zero (valof x)"
  from assms(1) obtain s m e where x: "x = Finite s m e" by (cases x) simp_all
  have conv: "double_to_int x = Some t"
    using assms(2,3) unfolding x double_to_int_Finite t_def by simp
  have "\<bar>t\<bar> < 2 ^ 53"
    using assms(2,3) by (simp add: t_def INT_MIN_def INT_MAX_def)
  then have int_exact: "valof (int_to_double t) = real_of_int t" "is_finite (int_to_double t)"
    using valof_int_to_double [of t] by simp_all
  have "valof (dadd acc (int_to_double t)) = valof acc + real_of_int t"
    if "is_finite acc \<and> representable (valof acc + real_of_int t)"
    using that int_exact dadd_exact [of acc "int_to_double t"] by simp
  moreover have "valof (dmul acc (int_to_double t)) = valof acc * real_of_int t"
    if "is_finite acc \<and> representable (valof acc * real_of_int t)"
    using that int_exact dmul_exact [of acc "int_to_double t"] by simp
  ultimately show ?thesis
    using conv int_exact unfolding t_def [symmetric] by simp
qed

text \<open>
  An instance: the scalar \<open>2.5\<close> adds 2 to the accumulator 10, and multiplies the
  accumulator 4 by 2.
\<close>

theorem scalar_handlers_truncate_witness:
  "valof (Finite False 5629499534213120 (- 51)) = 5 / 2
   \<and> SumVisitor_ProcessSingleElement (SumVisitor (double_literal 10))
       (SingleElement (Finite False 5629499534213120 (- 51))) =
         Returned (SumVisitor (double_literal 12))
   \<and> MultiplyVisitor_ProcessSingleElement (MultiplyVisitor (double_literal 4))
       (SingleElement (Finite False 5629499534213120 (- 51))) =
         Returned (MultiplyVisitor (double_literal 8))
   \<and> valof (double_literal 12) = 12 \<and> valof (double_literal 8) = 8"
proof -
  have h: "is_finite (Finite False 5629499534213120 (- 51))"
    "INT_MIN \<le> trunc_toward_zero (valof (Finite False 5629499534213120 (- 51)))"
    "trunc_toward_zero (valof (Finite False 5629499534213120 (- 51))) \<le> INT_MAX"
    unfolding two_and_a_half by (simp_all add: INT_MIN_def INT_MAX_def)
  have s: "dadd (double_literal 10) (int_to_double 2) = double_literal 12"
    and p: "dmul (double_literal 4) (int_to_double 2) = double_literal 8"
    by (simp_all add: literal_simps)
  have a: "SumVisitor_ProcessSingleElement (SumVisitor (double_literal 10))
       (SingleElement (Finite False 5629499534213120 (- 51))) =
         Returned (SumVisitor (double_literal 12))"
    using scalar_handlers_truncate [OF h, of "double_literal 10", THEN conjunct1]
    unfolding two_and_a_half s .
  have b: "MultiplyVisitor_ProcessSingleElement (MultiplyVisitor (double_literal 4))
       (SingleElement (Finite False 5629499534213120 (- 51))) =
         Returned (MultiplyVisitor (double_literal 8))"
    using scalar_handlers_truncate [OF h, of "double_literal 4", THEN conjunct2, THEN conjunct1]
    unfolding two_and_a_half p .
  have v: "valof (double_literal 12) = 12" "valof (double_literal 8) = 8"
    using valof_double_literal(1) [OF representable_nat, of 12]
      valof_double_literal(1) [OF representable_nat, of 8] by simp_all
  from a b v two_and_a_half(1) show ?thesis by (intro conjI)
qed

text \<open>
  Without the bound it fails: for the scalar \<open>2147483648.0\<close> the integer part is
  \<open>2\<^sup>3\<^sup>1\<close>, which is no \<^verbatim>\<open>int\<close>, and the behaviour of both handlers is undefined.
\<close>

theorem scalar_handlers_out_of_range:
  "is_finite (double_literal 2147483648)
   \<and> valof (double_literal 2147483648) = 2147483648
   \<and> SumVisitor_ProcessSingleElement (SumVisitor (double_literal 0))
       (SingleElement (double_literal 2147483648)) = Undefined
   \<and> MultiplyVisitor_ProcessSingleElement (MultiplyVisitor (double_literal 1))
       (SingleElement (double_literal 2147483648)) = Undefined
   \<and> trunc_toward_zero (valof (double_literal 2147483648)) = 2147483648
   \<and> INT_MAX < 2147483648"
  using valof_double_literal [OF representable_nat, of 2147483648]
  by (simp add: literal_simps trunc_toward_zero_def)

text \<open>
  C3. Dispatching the XOR visitor against a scalar element or a sequence element always
  throws the unsupported-operation error whose message names the class of the element
  (SingleElement or ArrayElement), and the visitor, so its accumulator, is as before.
\<close>

theorem XORVisitor_rejects_scalar_and_sequence:
  "XORVisitor_ProcessSingleElement v single =
     Thrown (runtime_error ''Error: Cannot apply XOR operation to SingleElement type'') v
   \<and> XORVisitor_ProcessArrayElement v array =
     Thrown (runtime_error ''Error: Cannot apply XOR operation to ArrayElement type'') v
   \<and> Accept (Single single) XORVisitor_vtable v =
     Thrown (runtime_error ''Error: Cannot apply XOR operation to SingleElement type'')
       (Single single, v)
   \<and> Accept (Array array) XORVisitor_vtable v =
     Thrown (runtime_error ''Error: Cannot apply XOR operation to ArrayElement type'')
       (Array array, v)"
  by (cases v) (simp add: handler_simps)

text \<open>
  C4 (as amended). For every sequence element, the sequence handler of the sum visitor
  returns, and adds to the accumulator, by one double addition, the sum of the values
  that \<^verbatim>\<open>std::accumulate\<close> computes in double arithmetic: from \<open>0.0\<close>, from left to
  right, each addition rounded to the nearest double. No value is truncated to an
  integer. The new accumulator is the exact arithmetic sum whenever the accumulator and
  the values are finite and every partial sum and the final sum are doubles.
\<close>

theorem SumVisitor_ProcessArrayElement_sum:
  "SumVisitor_ProcessArrayElement (SumVisitor acc) (ArrayElement v) =
     Returned (SumVisitor (dadd acc (foldl dadd (double_literal 0) v)))
   \<and> (is_finite acc \<and> (\<forall>x\<in>set v. is_finite x)
        \<and> (\<forall>k\<le>length v. representable (\<Sum>x\<leftarrow>take k v. valof x))
        \<and> representable (valof acc + (\<Sum>x\<leftarrow>v. valof x))
      \<longrightarrow> is_finite (dadd acc (foldl dadd (double_literal 0) v))
        \<and> valof (dadd acc (foldl dadd (double_literal 0) v)) = valof acc + (\<Sum>x\<leftarrow>v. valof x))"
proof (intro conjI impI)
  show "SumVisitor_ProcessArrayElement (SumVisitor acc) (ArrayElement v) =
     Returned (SumVisitor (dadd acc (foldl dadd (double_literal 0) v)))"
    by (simp add: accumulate_foldl)
next
  assume h: "is_finite acc \<and> (\<forall>x\<in>set v. is_finite x)
        \<and> (\<forall>k\<le>length v. representable (\<Sum>x\<leftarrow>take k v. valof x))
        \<and> representable (valof acc + (\<Sum>x\<leftarrow>v. valof x))"
  define total where "total = foldl dadd (double_literal 0) v"
  have "is_finite total \<and> valof total = valof (double_literal 0) + (\<Sum>x\<leftarrow>v. valof x)"
    unfolding total_def accumulate_foldl [symmetric]
    using h by (intro accumulate_dadd_exact) (simp_all add: double_literal_0)
  then have t: "is_finite total" "valof total = (\<Sum>x\<leftarrow>v. valof x)"
    by (simp_all add: double_literal_0)
  with h have "is_finite (dadd acc total) \<and> valof (dadd acc total) = valof acc + valof total"
    using dadd_exact [of acc total] by simp
  with t show "is_finite (dadd acc (foldl dadd (double_literal 0) v))"
    and "valof (dadd acc (foldl dadd (double_literal 0) v)) = valof acc + (\<Sum>x\<leftarrow>v. valof x)"
    by (simp_all add: total_def)
qed

text \<open>
  An instance: the values \<open>0.5\<close> and \<open>0.25\<close> are added untruncated to the
  accumulator 1, which becomes \<open>1.75\<close>.
\<close>

theorem SumVisitor_ProcessArrayElement_sum_witness:
  "SumVisitor_ProcessArrayElement (SumVisitor (double_literal 1))
     (ArrayElement [Finite False (2 ^ 52) (- 53), Finite False (2 ^ 52) (- 54)]) =
     Returned (SumVisitor (dadd (double_literal 1)
       (foldl dadd (double_literal 0) [Finite False (2 ^ 52) (- 53), Finite False (2 ^ 52) (- 54)])))
   \<and> valof (Finite False (2 ^ 52) (- 53)) = 1 / 2
   \<and> valof (Finite False (2 ^ 52) (- 54)) = 1 / 4
   \<and> valof (dadd (double_literal 1)
       (foldl dadd (double_literal 0) [Finite False (2 ^ 52) (- 53), Finite False (2 ^ 52) (- 54)]))
       = 7 / 4"
proof -
  define v where "v = [Finite False (2 ^ 52) (- 53), Finite False (2 ^ 52) (- 54)]"
  have one: "is_finite (double_literal 1)" "valof (double_literal 1) = 1"
    by (simp_all add: double_literal_1)
  have fin: "\<forall>x\<in>set v. is_finite x" by (simp add: v_def)
  have part: "\<forall>k\<le>length v. representable (\<Sum>x\<leftarrow>take k v. valof x)"
  proof (intro allI impI)
    fix k assume "k \<le> length v"
    then have "k = 0 \<or> k = Suc 0 \<or> k = 2" by (intro le_2_cases) (simp add: v_def)
    then show "representable (\<Sum>x\<leftarrow>take k v. valof x)"
      by (auto simp: v_def example_fractions example_representable)
  qed
  have sum: "(\<Sum>x\<leftarrow>v. valof x) = 3 / 4" by (simp add: v_def example_fractions)
  have all: "representable (valof (double_literal 1) + (\<Sum>x\<leftarrow>v. valof x))"
    unfolding sum one by (simp add: example_representable)
  from SumVisitor_ProcessArrayElement_sum [of "double_literal 1" v] one(1) fin part all
  have "SumVisitor_ProcessArrayElement (SumVisitor (double_literal 1)) (ArrayElement v) =
      Returned (SumVisitor (dadd (double_literal 1) (foldl dadd (double_literal 0) v)))"
    and "valof (dadd (double_literal 1) (foldl dadd (double_literal 0) v))
      = valof (double_literal 1) + (\<Sum>x\<leftarrow>v. valof x)"
    by blast+
  then show ?thesis
    unfolding sum one unfolding v_def by (simp add: example_fractions)
qed

text \<open>
  The sum is not always the exact one: for the values \<open>2\<^sup>5\<^sup>3\<close>, 1, 1 and the accumulator
  \<open>0.0\<close> both additions of 1 are rounded away and the result is \<open>2\<^sup>5\<^sup>3\<close>, although the
  exact sum \<open>2\<^sup>5\<^sup>3 + 2\<close> is a double.
\<close>

theorem SumVisitor_ProcessArrayElement_rounds:
  "SumVisitor_ProcessArrayElement (SumVisitor (double_literal 0))
     (ArrayElement [double_literal 9007199254740992, double_literal 1, double_literal 1]) =
     Returned (SumVisitor (double_literal 9007199254740992))
   \<and> valof (double_literal 9007199254740992) = 9007199254740992
   \<and> valof (double_literal 0)
       + (\<Sum>x\<leftarrow>[double_literal 9007199254740992, double_literal 1, double_literal 1]. valof x)
       = 9007199254740994
   \<and> valof (double_literal 9007199254740992) \<noteq> valof (double_literal 0)
       + (\<Sum>x\<leftarrow>[double_literal 9007199254740992, double_literal 1, double_literal 1]. valof x)
   \<and> valid_double (double_literal 9007199254740994)
   \<and> valof (double_literal 9007199254740994) = 9007199254740994"
proof -
  have r: "representable (real 0)" "representable (real 1)"
    using representable_nat [of 0] representable_nat [of 1] by simp_all
  have step: "dadd (double_literal 9007199254740992) (double_literal 1)
      = double_literal 9007199254740992"
    using dadd_literal [OF representable_2_53 r(2)] by (simp add: double_literal_2_53)
  have first: "dadd (double_literal 0) (double_literal 9007199254740992)
      = double_literal 9007199254740992"
    using dadd_literal [OF r(1) representable_2_53] by simp
  have v: "valof (double_literal 9007199254740992) = 9007199254740992"
    "valof (double_literal 9007199254740994) = 9007199254740994"
    by (simp_all add: double_literal_2_53)
  have "SumVisitor_ProcessArrayElement (SumVisitor (double_literal 0))
     (ArrayElement [double_literal 9007199254740992, double_literal 1, double_literal 1]) =
     Returned (SumVisitor (double_literal 9007199254740992))"
    by (simp add: first step del: One_nat_def)
  moreover have "valof (double_literal 0)
       + (\<Sum>x\<leftarrow>[double_literal 9007199254740992, double_literal 1, double_literal 1]. valof x)
       = 9007199254740994"
    by (simp add: v double_literal_0 double_literal_1)
  moreover have "valid_double (double_literal 9007199254740994)"
    by (rule valid_double_literal)
  ultimately show ?thesis using v by simp
qed

text \<open>
  C5. For every sequence element, the sequence handler of the product visitor returns,
  and multiplies the accumulator, by one double multiplication, by the product of the
  values that \<^verbatim>\<open>std::accumulate\<close> computes in double arithmetic from \<open>1.0\<close>. For the
  empty sequence the accumulator is unchanged, whatever double it is. The new
  accumulator is the exact arithmetic product whenever the accumulator and the values
  are finite and every partial product and the final product are doubles.
\<close>

theorem MultiplyVisitor_ProcessArrayElement_product:
  "MultiplyVisitor_ProcessArrayElement (MultiplyVisitor acc) (ArrayElement v) =
     Returned (MultiplyVisitor (dmul acc (foldl dmul (double_literal 1) v)))
   \<and> (valid_double acc \<longrightarrow>
        MultiplyVisitor_ProcessArrayElement (MultiplyVisitor acc) (ArrayElement []) =
          Returned (MultiplyVisitor acc))
   \<and> (is_finite acc \<and> (\<forall>x\<in>set v. is_finite x)
        \<and> (\<forall>k\<le>length v. representable (\<Prod>x\<leftarrow>take k v. valof x))
        \<and> representable (valof acc * (\<Prod>x\<leftarrow>v. valof x))
      \<longrightarrow> is_finite (dmul acc (foldl dmul (double_literal 1) v))
        \<and> valof (dmul acc (foldl dmul (double_literal 1) v)) = valof acc * (\<Prod>x\<leftarrow>v. valof x))"
proof (intro conjI impI)
  show "MultiplyVisitor_ProcessArrayElement (MultiplyVisitor acc) (ArrayElement v) =
     Returned (MultiplyVisitor (dmul acc (foldl dmul (double_literal 1) v)))"
    by (simp add: accumulate_foldl)
next
  assume "valid_double acc"
  then show "MultiplyVisitor_ProcessArrayElement (MultiplyVisitor acc) (ArrayElement []) =
      Returned (MultiplyVisitor acc)"
    by (simp add: dmul_one)
next
  assume h: "is_finite acc \<and> (\<forall>x\<in>set v. is_finite x)
        \<and> (\<forall>k\<le>length v. representable (\<Prod>x\<leftarrow>take k v. valof x))
        \<and> representable (valof acc * (\<Prod>x\<leftarrow>v. valof x))"
  define total where "total = foldl dmul (double_literal 1) v"
  have one: "is_finite (double_literal 1)" "valof (double_literal 1) = 1"
    by (simp_all add: double_literal_1)
  have "is_finite total \<and> valof total = valof (double_literal 1) * (\<Prod>x\<leftarrow>v. valof x)"
    unfolding total_def accumulate_foldl [symmetric]
    using h by (intro accumulate_dmul_exact) (simp_all add: one del: One_nat_def)
  then have t: "is_finite total" "valof total = (\<Prod>x\<leftarrow>v. valof x)"
    by (simp_all add: one del: One_nat_def)
  with h have "is_finite (dmul acc total) \<and> valof (dmul acc total) = valof acc * valof total"
    using dmul_exact [of acc total] by simp
  with t show "is_finite (dmul acc (foldl dmul (double_literal 1) v))"
    and "valof (dmul acc (foldl dmul (double_literal 1) v)) = valof acc * (\<Prod>x\<leftarrow>v. valof x)"
    by (simp_all add: total_def)
qed

text \<open>
  Instances: the empty sequence leaves the accumulator \<open>-\<infinity>\<close> as it is; the values
  \<open>0.5\<close> and 3 multiply the accumulator 2 to 3.
\<close>

theorem MultiplyVisitor_ProcessArrayElement_product_witness:
  "valid_double (Infinity True)
   \<and> MultiplyVisitor_ProcessArrayElement (MultiplyVisitor (Infinity True)) (ArrayElement []) =
       Returned (MultiplyVisitor (Infinity True))
   \<and> valof (Finite False (2 ^ 52) (- 53)) = 1 / 2
   \<and> MultiplyVisitor_ProcessArrayElement (MultiplyVisitor (double_literal 2))
       (ArrayElement [Finite False (2 ^ 52) (- 53), double_literal 3]) =
     Returned (MultiplyVisitor (dmul (double_literal 2)
       (foldl dmul (double_literal 1) [Finite False (2 ^ 52) (- 53), double_literal 3])))
   \<and> valof (dmul (double_literal 2)
       (foldl dmul (double_literal 1) [Finite False (2 ^ 52) (- 53), double_literal 3])) = 3"
proof -
  define v where "v = [Finite False (2 ^ 52) (- 53), double_literal 3]"
  have lit: "is_finite (double_literal 2)" "valof (double_literal 2) = 2"
    "is_finite (double_literal 3)" "valof (double_literal 3) = 3"
    using valof_double_literal [OF representable_nat, of 2]
      valof_double_literal [OF representable_nat, of 3] by simp_all
  have fin: "\<forall>x\<in>set v. is_finite x" by (simp add: v_def lit)
  have part: "\<forall>k\<le>length v. representable (\<Prod>x\<leftarrow>take k v. valof x)"
  proof (intro allI impI)
    fix k assume "k \<le> length v"
    then have "k = 0 \<or> k = Suc 0 \<or> k = 2" by (intro le_2_cases) (simp add: v_def)
    then show "representable (\<Prod>x\<leftarrow>take k v. valof x)"
      by (auto simp: v_def lit example_fractions example_representable)
  qed
  have prod: "(\<Prod>x\<leftarrow>v. valof x) = 3 / 2" by (simp add: v_def lit example_fractions)
  have all: "representable (valof (double_literal 2) * (\<Prod>x\<leftarrow>v. valof x))"
    unfolding prod lit by (simp add: example_representable)
  have inf: "valid_double (Infinity True)" by simp
  from MultiplyVisitor_ProcessArrayElement_product [of "double_literal 2" v] lit(1) fin part all
  have "MultiplyVisitor_ProcessArrayElement (MultiplyVisitor (double_literal 2)) (ArrayElement v) =
      Returned (MultiplyVisitor (dmul (double_literal 2) (foldl dmul (double_literal 1) v)))"
    and "valof (dmul (double_literal 2) (foldl dmul (double_literal 1) v))
      = valof (double_literal 2) * (\<Prod>x\<leftarrow>v. valof x)"
    by blast+
  moreover from MultiplyVisitor_ProcessArrayElement_product [of "Infinity True" v] inf
  have "MultiplyVisitor_ProcessArrayElement (MultiplyVisitor (Infinity True)) (ArrayElement []) =
       Returned (MultiplyVisitor (Infinity True))"
    by blast
  ultimately show ?thesis
    unfolding prod lit unfolding v_def by (simp add: example_fractions)
qed

text \<open>
  C6. For every visitor and every accumulated state, \<^verbatim>\<open>Reset()\<close> restores the
  identity value: the double \<open>+0.0\<close> for the sum visitor, the double \<open>1.0\<close> for the
  product visitor, and 0 for the XOR visitor.
\<close>

theorem Reset_restores_identity:
  "SumVisitor_GetValue (SumVisitor_Reset sv) = Finite False 0 (- 1074)
   \<and> valof (SumVisitor_GetValue (SumVisitor_Reset sv)) = 0
   \<and> MultiplyVisitor_GetValue (MultiplyVisitor_Reset mv) = Finite False (2 ^ 52) (- 52)
   \<and> valof (MultiplyVisitor_GetValue (MultiplyVisitor_Reset mv)) = 1
   \<and> XORVisitor_GetValue (XORVisitor_Reset xv) = 0"
  by (cases sv; cases mv; cases xv) (simp add: double_literal_0 double_literal_1)

text \<open>
  C7 (as amended). For every string whose digit sum is below \<open>2\<^sup>5\<^sup>3\<close>, the text
  handler of the sum visitor adds to the accumulator (a double addition) exactly the
  sum of the decimal digit values of its ASCII digit characters; the other characters
  add nothing. For every string all of whose prefixes have a digit product below
  \<open>2\<^sup>5\<^sup>3\<close>, the text handler of the product visitor multiplies the accumulator (a
  double multiplication) by exactly the product of those digit values; the other
  characters are factors 1 and a digit 0 is a factor 0. Beyond \<open>2\<^sup>5\<^sup>3\<close> the running
  sum or product is rounded to the nearest double.
\<close>

theorem text_handlers_digits:
  "(digit_sum s < 2 ^ 53 \<longrightarrow>
      SumVisitor_ProcessStringElement (SumVisitor acc) (StringElement s) =
        Returned (SumVisitor (dadd acc (double_literal (digit_sum s))))
      \<and> is_finite (double_literal (digit_sum s))
      \<and> valof (double_literal (digit_sum s)) = real (digit_sum s))
   \<and> ((\<forall>k\<le>length s. digit_product (take k s) < 2 ^ 53) \<longrightarrow>
      MultiplyVisitor_ProcessStringElement (MultiplyVisitor acc) (StringElement s) =
        Returned (MultiplyVisitor (dmul acc (double_literal (digit_product s))))
      \<and> is_finite (double_literal (digit_product s))
      \<and> valof (double_literal (digit_product s)) = real (digit_product s))"
proof (intro conjI impI)
  assume h: "digit_sum s < 2 ^ 53"
  have "\<forall>k<length s. 0 + digit_sum (take k s) < 2 ^ 53"
    using digit_sum_take_le [of _ s] h by (auto intro: le_less_trans)
  from accumulate_digit_sum [OF this]
  show "SumVisitor_ProcessStringElement (SumVisitor acc) (StringElement s) =
        Returned (SumVisitor (dadd acc (double_literal (digit_sum s))))"
    by simp
  from h show "is_finite (double_literal (digit_sum s))"
    and "valof (double_literal (digit_sum s)) = real (digit_sum s)"
    by (simp_all add: valof_double_literal representable_nat)
next
  assume h: "\<forall>k\<le>length s. digit_product (take k s) < 2 ^ 53"
  then have "\<forall>k<length s. 1 * digit_product (take k s) < 2 ^ 53" by simp
  from accumulate_digit_product [OF this]
  show "MultiplyVisitor_ProcessStringElement (MultiplyVisitor acc) (StringElement s) =
        Returned (MultiplyVisitor (dmul acc (double_literal (digit_product s))))"
    by simp
  from h have "digit_product s < 2 ^ 53" by (auto dest: spec [where x = "length s"])
  then show "is_finite (double_literal (digit_product s))"
    and "valof (double_literal (digit_product s)) = real (digit_product s)"
    by (simp_all add: valof_double_literal representable_nat)
qed

text \<open>
  An instance: the digits of \<open>a1b23\<close> are 1, 2 and 3; their sum 6 is added to the
  accumulator 10, and their product 6 multiplies the accumulator 2.
\<close>

theorem text_handlers_digits_witness:
  "digit_sum ''a1b23'' = 6 \<and> digit_product ''a1b23'' = 6
   \<and> SumVisitor_ProcessStringElement (SumVisitor (double_literal 10)) (StringElement ''a1b23'') =
       Returned (SumVisitor (double_literal 16))
   \<and> MultiplyVisitor_ProcessStringElement (MultiplyVisitor (double_literal 2))
       (StringElement ''a1b23'') = Returned (MultiplyVisitor (double_literal 12))
   \<and> valof (double_literal 16) = 16 \<and> valof (double_literal 12) = 12"
proof -
  have d: "digit_sum ''a1b23'' = 6" "digit_product ''a1b23'' = 6"
    by (simp_all add: digit_simps)
  have h1: "digit_sum ''a1b23'' < 2 ^ 53" unfolding d by simp
  have h2: "\<forall>k\<le>length ''a1b23''. digit_product (take k ''a1b23'') < 2 ^ 53"
  proof (intro allI impI)
    fix k
    have "digit_product (take k ''a1b23'') \<le> 9 ^ length (take k ''a1b23'')"
      by (rule digit_product_le)
    also have "\<dots> \<le> (9::nat) ^ 5" by (intro power_increasing) simp_all
    also have "\<dots> < 2 ^ 53" by simp
    finally show "digit_product (take k ''a1b23'') < 2 ^ 53" .
  qed
  have s: "dadd (double_literal 10) (double_literal 6) = double_literal 16"
    and p: "dmul (double_literal 2) (double_literal 6) = double_literal 12"
    by (simp_all add: literal_simps)
  have a: "SumVisitor_ProcessStringElement (SumVisitor (double_literal 10))
      (StringElement ''a1b23'') = Returned (SumVisitor (double_literal 16))"
    using text_handlers_digits [of "''a1b23''" "double_literal 10", THEN conjunct1, THEN mp,
        OF h1, THEN conjunct1]
    unfolding d s .
  have b: "MultiplyVisitor_ProcessStringElement (MultiplyVisitor (double_literal 2))
      (StringElement ''a1b23'') = Returned (MultiplyVisitor (double_literal 12))"
    using text_handlers_digits [of "''a1b23''" "double_literal 2", THEN conjunct2, THEN mp,
        OF h2, THEN conjunct1]
    unfolding d p .
  have v: "valof (double_literal 16) = 16" "valof (double_literal 12) = 12"
    using valof_double_literal(1) [OF representable_nat, of 16]
      valof_double_literal(1) [OF representable_nat, of 12] by simp_all
  from d a b v show ?thesis by (intro conjI)
qed

text \<open>
  The product is not always the exact one: for seventeen digits 9 and the accumulator
  \<open>1.0\<close> the result is 16677181699666568, and \<open>9\<^sup>1\<^sup>7\<close> is 16677181699666569.
\<close>

theorem text_product_rounds:
  "digit_product ''99999999999999999'' = 16677181699666569
   \<and> MultiplyVisitor_ProcessStringElement (MultiplyVisitor (double_literal 1))
       (StringElement ''99999999999999999'') =
         Returned (MultiplyVisitor (Finite False 8338590849833284 1))
   \<and> valof (double_literal 1) = 1
   \<and> valof (Finite False 8338590849833284 1) = 16677181699666568
   \<and> valof (Finite False 8338590849833284 1)
       \<noteq> valof (double_literal 1) * real (digit_product ''99999999999999999'')"
proof -
  define s where "s = ''99999999999999999''"
  have d: "digit_product s = 16677181699666569"
    by (simp add: s_def digit_simps)
  have "\<forall>k<length s. 1 * digit_product (take k s) < 2 ^ 53"
  proof (intro allI impI)
    fix k assume "k < length s"
    then have k: "k \<le> 16" by (simp add: s_def)
    have "digit_product (take k s) \<le> 9 ^ length (take k s)"
      by (rule digit_product_le)
    also have "\<dots> \<le> (9::nat) ^ 16" using k by (intro power_increasing) simp_all
    also have "\<dots> < 2 ^ 53" by simp
    finally show "1 * digit_product (take k s) < 2 ^ 53" by simp
  qed
  from accumulate_digit_product [OF this]
  have "accumulate s (double_literal 1)
      (\<lambda>prod_acc c. MultiplyVisitor_lambda_multiply prod_acc (of_char c))
    = Finite False 8338590849833284 1"
    unfolding d by (simp add: double_literal_eval [of 53] round_shift_def)
  moreover have "dmul (double_literal 1) (Finite False 8338590849833284 1)
      = Finite False 8338590849833284 1"
    using dmul_one_left [of "Finite False 8338590849833284 1"] by simp
  ultimately have "MultiplyVisitor_ProcessStringElement (MultiplyVisitor (double_literal 1))
       (StringElement s) = Returned (MultiplyVisitor (Finite False 8338590849833284 1))"
    by simp
  moreover have one: "valof (double_literal 1) = 1" by (simp add: double_literal_1)
  moreover have r: "valof (Finite False 8338590849833284 1) = 16677181699666568" by simp
  moreover have "valof (Finite False 8338590849833284 1)
      \<noteq> valof (double_literal 1) * real (digit_product s)"
    unfolding one r d by simp
  ultimately show ?thesis using d unfolding s_def by (intro conjI)
qed

text \<open>
  C8. For every string, the text handler of the XOR visitor returns (it never throws),
  and the new accumulator is the old one XORed with the XOR, from 0, of the codes of all
  characters of the string, whatever the characters are. The value that
  \<^verbatim>\<open>GetValue()\<close> returns is always in the range 0..255.
\<close>

theorem XORVisitor_ProcessStringElement_checksum:
  "XORVisitor_ProcessStringElement v (StringElement s) =
     Returned (XORVisitor (XORVisitor_GetValue v XOR foldl (\<lambda>x c. x XOR of_char c) 0 s))
   \<and> 0 \<le> uint (XORVisitor_GetValue w) \<and> uint (XORVisitor_GetValue w) \<le> 255"
proof -
  have "uint (XORVisitor_GetValue w) < 2 ^ 8"
    using uint_bounded [of "XORVisitor_GetValue w"] by simp
  then show ?thesis
    using accumulate_xor [of s 0] by (cases v) simp
qed

text \<open>
  C9. \<^verbatim>\<open>main\<close> terminates with exit status 0, whatever its arguments: the behaviour is
  defined, every exception thrown in the three batches is caught in \<^verbatim>\<open>main\<close>, and
  the value returned is 0.
\<close>

theorem main_exit_status: "map_option fst (main argc argv) = Some 0"
  by (simp add: main_result)




end
